theory Spec2Isabelle
  imports Main
begin

section \<open>Values, errors and outcomes\<close>

text \<open>
  Go's \<^verbatim>\<open>[]byte\<close> and \<^verbatim>\<open>string\<close> are both sequences of 8-bit values; the conversions
  \<^verbatim>\<open>[]byte(s)\<close> and \<^verbatim>\<open>string(b)\<close> keep the bytes. Both are modelled as lists of
  \<^typ>\<open>char\<close>, whose values are exactly the 256 bytes.
\<close>

type_synonym bytes = string

text \<open>
  Errors are values. \<open>ErrorString\<close> is what \<^verbatim>\<open>errors.New\<close> and \<^verbatim>\<open>fmt.Errorf\<close> build,
  carrying the message; \<open>ErrNotExist\<close> is a path error for which
  \<^verbatim>\<open>errors.Is(err, os.ErrNotExist)\<close> holds; \<open>PathError\<close> is any other failure of a file
  system call, with its errno; \<open>JSONError\<close> comes from \<^verbatim>\<open>encoding/json\<close>;
  \<open>ResponseError\<close> is Vault's \<^verbatim>\<open>*vault.ResponseError\<close> with its HTTP status code and
  \<open>ClientError\<close> any other error of a vendor SDK.
\<close>

datatype error =
    ErrorString string
  | ErrNotExist
  | PathError nat
  | JSONError string
  | ResponseError nat
  | ClientError string

text \<open>
  A Go function returning \<^verbatim>\<open>(T, error)\<close> either returns a value or an error; a
  \<^verbatim>\<open>panic\<close> ends the process and is the third outcome.
\<close>

datatype 'a outcome = Return 'a | Fail error | Panicked

section \<open>The cryptographic libraries\<close>

text \<open>
  \<^verbatim>\<open>argon2.Key\<close> and the XChaCha20-Poly1305 AEAD of \<^verbatim>\<open>golang.org/x/crypto\<close> are not
  code of this repository. They are parameters of the model:
  \<open>argon2_Key password salt time memory threads keyLen\<close>,
  \<open>aead_Seal key nonce plaintext\<close> for \<^verbatim>\<open>cipher.Seal(nil, nonce, plaintext, nil)\<close> and
  \<open>aead_Open key nonce ciphertext\<close> for \<^verbatim>\<open>cipher.Open(nil, nonce, ciphertext, nil)\<close>,
  which is \<open>None\<close> when the library reports its authentication error.
\<close>

record crypto =
  argon2_Key :: "bytes \<Rightarrow> bytes \<Rightarrow> nat \<Rightarrow> nat \<Rightarrow> nat \<Rightarrow> nat \<Rightarrow> bytes"
  aead_Seal :: "bytes \<Rightarrow> bytes \<Rightarrow> bytes \<Rightarrow> bytes"
  aead_Open :: "bytes \<Rightarrow> bytes \<Rightarrow> bytes \<Rightarrow> bytes option"

text \<open>The two errors of the \<^verbatim>\<open>chacha20poly1305\<close> package, as it declares them.\<close>

definition errBadKeyLength :: error where
  "errBadKeyLength = ErrorString ''chacha20poly1305: bad key length''"

definition errOpen :: error where
  "errOpen = ErrorString ''chacha20poly1305: message authentication failed''"

text \<open>\<^verbatim>\<open>chacha20poly1305.NewX\<close> accepts a key of exactly \<^verbatim>\<open>KeySize = 32\<close> bytes.\<close>

definition chacha20poly1305_NewX :: "bytes \<Rightarrow> bytes outcome" where
  "chacha20poly1305_NewX key =
     (if length key \<noteq> 32 then Fail errBadKeyLength else Return key)"

section \<open>The process environment\<close>

text \<open>
  A file system call that fails does so with an errno. For a write that fails, the
  fault also says what became of the file: \<^verbatim>\<open>ioutil.WriteFile\<close> opens the file
  truncating it, writes the data and closes the file, so either the open failed and
  the file is untouched (\<open>None\<close>), or the file was truncated and holds the first \<open>n\<close>
  bytes of the data (\<open>Some n\<close>: none of them, some, or all when only the close failed).
\<close>

datatype fault = Fault nat "nat option"

text \<open>
  The state outside the program: the files by path, the outcome of the file system calls
  still to come (\<open>Some fault\<close> makes the next call fail; an exhausted list means every
  further call succeeds), what the next reads of \<^verbatim>\<open>crypto/rand.Reader\<close> deliver (the bytes
  and the error, if any), the readings of the wall clock, one for each call of
  \<^verbatim>\<open>time.Now\<close>, with the number of calls made so far, and the name of the current OS user
  (\<open>None\<close> when \<^verbatim>\<open>user.Current\<close> fails).
\<close>

record world =
  files :: "string \<rightharpoonup> bytes"
  faults :: "fault option list"
  entropy :: "(bytes \<times> error option) list"
  clock :: "nat \<Rightarrow> int"
  now_calls :: nat
  os_user :: "string option"

definition next_fault :: "world \<Rightarrow> fault option \<times> world" where
  "next_fault w =
     (case faults w of
        [] \<Rightarrow> (None, w)
      | f # fs \<Rightarrow> (f, w\<lparr>faults := fs\<rparr>))"

definition os_Stat :: "string \<Rightarrow> world \<Rightarrow> error option \<times> world" where
  "os_Stat p w =
     (case next_fault w of
        (Some (Fault e written), w') \<Rightarrow> (Some (PathError e), w')
      | (None, w') \<Rightarrow> (if files w' p = None then Some ErrNotExist else None, w'))"

definition ioutil_WriteFile :: "string \<Rightarrow> bytes \<Rightarrow> world \<Rightarrow> error option \<times> world" where
  "ioutil_WriteFile p data w =
     (case next_fault w of
        (Some (Fault e written), w') \<Rightarrow>
          (Some (PathError e),
           (case written of
              None \<Rightarrow> w'
            | Some n \<Rightarrow> w'\<lparr>files := (files w')(p \<mapsto> take n data)\<rparr>))
      | (None, w') \<Rightarrow> (None, w'\<lparr>files := (files w')(p \<mapsto> data)\<rparr>))"

definition ioutil_ReadFile :: "string \<Rightarrow> world \<Rightarrow> (error + bytes) \<times> world" where
  "ioutil_ReadFile p w =
     (case next_fault w of
        (Some (Fault e written), w') \<Rightarrow> (Inl (PathError e), w')
      | (None, w') \<Rightarrow>
          (case files w' p of
             None \<Rightarrow> (Inl ErrNotExist, w')
           | Some data \<Rightarrow> (Inr data, w')))"

text \<open>\<^verbatim>\<open>time.Now()\<close>: the next reading of the clock.\<close>

definition time_Now :: "world \<Rightarrow> int \<times> world" where
  "time_Now w = (clock w (now_calls w), w\<lparr>now_calls := now_calls w + 1\<rparr>)"

text \<open>
  \<^verbatim>\<open>rand.Reader.Read(buf)\<close> on a zeroed buffer of \<open>len\<close> bytes: the buffer after the call,
  the number of bytes read and the error. A reader with nothing left reads no byte and
  reports an error.
\<close>

definition rand_Read :: "nat \<Rightarrow> world \<Rightarrow> (bytes \<times> nat \<times> error option) \<times> world" where
  "rand_Read len w =
     (case entropy w of
        [] \<Rightarrow> ((replicate len (CHR 0x00), 0, Some (ErrorString ''EOF'')), w)
      | (bs, err) # rest \<Rightarrow>
          (let n = min len (length bs)
           in ((take n bs @ replicate (len - n) (CHR 0x00), n, err),
               w\<lparr>entropy := rest\<rparr>)))"

section \<open>The AEAD envelope cipher of the file store\<close>

record FileStore =
  storeLocation :: string
  projectID :: string
  cryptoKey :: bytes

text \<open>\<^verbatim>\<open>makeNonce(len)\<close>: panics on a read error and on a short read.\<close>

definition makeNonce :: "nat \<Rightarrow> world \<Rightarrow> bytes outcome \<times> world" where
  "makeNonce len w =
     (case rand_Read len w of
        ((salt, n, err), w') \<Rightarrow>
          (if err \<noteq> None then (Panicked, w')
           else if n \<noteq> len then (Panicked, w')
           else (Return salt, w')))"

text \<open>
  \<^verbatim>\<open>FileStore.encrypt(data, pass)\<close>: salt, key derivation, cipher construction, nonce,
  seal, and the concatenation \<^verbatim>\<open>salt ++ nonce ++ cipherText\<close>.
\<close>

definition encrypt :: "crypto \<Rightarrow> bytes \<Rightarrow> bytes \<Rightarrow> world \<Rightarrow> bytes outcome \<times> world" where
  "encrypt c data pass w =
     (case makeNonce 16 w of
        (Panicked, w1) \<Rightarrow> (Panicked, w1)
      | (Fail e, w1) \<Rightarrow> (Fail e, w1)
      | (Return salt, w1) \<Rightarrow>
          (case chacha20poly1305_NewX (argon2_Key c pass salt 3 (32 * 1024) 4 32) of
             Panicked \<Rightarrow> (Panicked, w1)
           | Fail e \<Rightarrow> (Fail e, w1)
           | Return cipher \<Rightarrow>
               (case makeNonce 24 w1 of
                  (Panicked, w2) \<Rightarrow> (Panicked, w2)
                | (Fail e, w2) \<Rightarrow> (Fail e, w2)
                | (Return nonce, w2) \<Rightarrow>
                    (Return (salt @ nonce @ aead_Seal c cipher nonce data), w2))))"

text \<open>The Go slice expression \<^verbatim>\<open>xs[lo:hi]\<close>, for \<open>lo \<le> hi \<le> length xs\<close>.\<close>

definition slice :: "'a list \<Rightarrow> nat \<Rightarrow> nat \<Rightarrow> 'a list" where
  "slice xs lo hi = take (hi - lo) (drop lo xs)"

text \<open>
  \<^verbatim>\<open>FileStore.decrypt(data, pass)\<close>: the length check, then \<^verbatim>\<open>data[:16]\<close>,
  \<^verbatim>\<open>data[16:40]\<close> and \<^verbatim>\<open>data[40:]\<close>, key derivation, cipher construction and open. The
  error of \<^verbatim>\<open>cipher.Open\<close> is returned as it is.
\<close>

definition decrypt :: "crypto \<Rightarrow> bytes \<Rightarrow> bytes \<Rightarrow> bytes outcome" where
  "decrypt c data pass =
     (if length data < 40 then Fail (ErrorString ''data has incorrect format'')
      else
        (let salt = slice data 0 16;
             nonce = slice data 16 40;
             data' = drop 40 data
         in case chacha20poly1305_NewX (argon2_Key c pass salt 3 (32 * 1024) 4 32) of
              Panicked \<Rightarrow> Panicked
            | Fail e \<Rightarrow> Fail e
            | Return cipher \<Rightarrow>
                (case aead_Open c cipher nonce data' of
                   None \<Rightarrow> Fail errOpen
                 | Some plaintext \<Rightarrow> Return plaintext)))"

section \<open>Store persistence\<close>

text \<open>
  Modelled from the spec: the declaration of \<^verbatim>\<open>backend.Key\<close> is not among the sources.
  Its fields are those of the data model (\<open>Name\<close>, \<open>CreatedAt\<close>, \<open>Owner\<close>, \<open>Info\<close>), which
  are also the fields the sources assign. A \<^verbatim>\<open>time.Time\<close> is an integer instant.
\<close>

record Key =
  Name :: string
  CreatedAt :: int
  Owner :: string
  Info :: string

record FileStoreEntry =
  Value :: bytes
  KeyInfo :: Key

text \<open>
  \<^verbatim>\<open>encoding/json\<close> is a library: \<^verbatim>\<open>json.Marshal(&store)\<close> and
  \<^verbatim>\<open>json.Unmarshal(data, &store)\<close> for a \<^verbatim>\<open>[]FileStoreEntry\<close> are parameters of the model.
  A nil slice and an empty slice are both the empty list; the store marshals non-empty
  slices only.
\<close>

record codec =
  json_Marshal :: "FileStoreEntry list \<Rightarrow> error + bytes"
  json_Unmarshal :: "bytes \<Rightarrow> error + FileStoreEntry list"

text \<open>
  \<^verbatim>\<open>createStoreIfNotExists\<close>: when \<^verbatim>\<open>os.Stat\<close> reports that the file does not exist, an
  empty file is written and the error of that write is the result; any other error of
  \<^verbatim>\<open>os.Stat\<close> is returned.
\<close>

definition createStoreIfNotExists :: "FileStore \<Rightarrow> world \<Rightarrow> error option \<times> world" where
  "createStoreIfNotExists d w =
     (case os_Stat (storeLocation d) w of
        (None, w1) \<Rightarrow> (None, w1)
      | (Some err, w1) \<Rightarrow>
          (if err = ErrNotExist
           then (case ioutil_WriteFile (storeLocation d) [] w1 of
                   (Some err', w2) \<Rightarrow> (Some err', w2)
                 | (None, w2) \<Rightarrow> (None, w2))
           else (Some err, w1)))"

text \<open>\<^verbatim>\<open>getStore\<close>: a file of length zero is the empty store and is not decoded.\<close>

definition getStore :: "codec \<Rightarrow> FileStore \<Rightarrow> world \<Rightarrow> FileStoreEntry list outcome \<times> world" where
  "getStore j d w =
     (case createStoreIfNotExists d w of
        (Some err, w1) \<Rightarrow> (Fail err, w1)
      | (None, w1) \<Rightarrow>
          (case ioutil_ReadFile (storeLocation d) w1 of
             (Inl err, w2) \<Rightarrow> (Fail err, w2)
           | (Inr data, w2) \<Rightarrow>
               (if length data = 0 then (Return [], w2)
                else (case json_Unmarshal j data of
                        Inl err \<Rightarrow> (Fail err, w2)
                      | Inr store \<Rightarrow> (Return store, w2)))))"

text \<open>
  The loop of \<^verbatim>\<open>FileStore.Get\<close>: the first entry whose name is the key is decrypted and
  ends the loop; whatever error \<^verbatim>\<open>decrypt\<close> returns, the error of \<^verbatim>\<open>Get\<close> is the fixed
  message.
\<close>

fun Get_scan :: "crypto \<Rightarrow> FileStore \<Rightarrow> string \<Rightarrow> FileStoreEntry list \<Rightarrow> bytes outcome" where
  "Get_scan c d key [] = Fail (ErrorString (key @ '' not found''))"
| "Get_scan c d key (data # rest) =
     (if Name (KeyInfo data) = key
      then (case decrypt c (Value data) (cryptoKey d) of
              Return plaintext \<Rightarrow> Return plaintext
            | Fail err \<Rightarrow> Fail (ErrorString ''message authentication failed'')
            | Panicked \<Rightarrow> Panicked)
      else Get_scan c d key rest)"

definition FileStore_Get ::
  "crypto \<Rightarrow> codec \<Rightarrow> FileStore \<Rightarrow> string \<Rightarrow> world \<Rightarrow> bytes outcome \<times> world" where
  "FileStore_Get c j d key w =
     (case getStore j d w of
        (Fail err, w1) \<Rightarrow> (Fail err, w1)
      | (Panicked, w1) \<Rightarrow> (Panicked, w1)
      | (Return storeData, w1) \<Rightarrow> (Get_scan c d key storeData, w1))"

text \<open>The loop of \<^verbatim>\<open>FileStore.List\<close> appends the \<open>KeyInfo\<close> of every entry to \<open>keys\<close>.\<close>

fun List_collect :: "Key list \<Rightarrow> FileStoreEntry list \<Rightarrow> Key list" where
  "List_collect keys [] = keys"
| "List_collect keys (info # rest) = List_collect (keys @ [KeyInfo info]) rest"

definition FileStore_List :: "codec \<Rightarrow> FileStore \<Rightarrow> world \<Rightarrow> Key list outcome \<times> world" where
  "FileStore_List j d w =
     (case getStore j d w of
        (Fail err, w1) \<Rightarrow> (Fail err, w1)
      | (Panicked, w1) \<Rightarrow> (Panicked, w1)
      | (Return storeData, w1) \<Rightarrow> (Return (List_collect [] storeData), w1))"

fun CheckExists_scan :: "string \<Rightarrow> FileStoreEntry list \<Rightarrow> bool" where
  "CheckExists_scan key [] = False"
| "CheckExists_scan key (each # rest) =
     (if Name (KeyInfo each) = key then True else CheckExists_scan key rest)"

definition FileStore_CheckExists ::
  "codec \<Rightarrow> FileStore \<Rightarrow> string \<Rightarrow> world \<Rightarrow> bool outcome \<times> world" where
  "FileStore_CheckExists j d key w =
     (case getStore j d w of
        (Fail err, w1) \<Rightarrow> (Fail err, w1)
      | (Panicked, w1) \<Rightarrow> (Panicked, w1)
      | (Return storeData, w1) \<Rightarrow> (Return (CheckExists_scan key storeData), w1))"

text \<open>
  \<^verbatim>\<open>FileStore.Put(ctx, profile, key, value)\<close>. The method takes no overwrite flag. The
  owner is the name of the current user, or empty when \<^verbatim>\<open>user.Current\<close> fails, and
  the creation time is read from the clock; the new entry goes after the entries read
  from the file, and the file is written last.
\<close>

definition FileStore_Put ::
  "crypto \<Rightarrow> codec \<Rightarrow> FileStore \<Rightarrow> string \<Rightarrow> string \<Rightarrow> world \<Rightarrow> unit outcome \<times> world" where
  "FileStore_Put c j d key val w =
     (case createStoreIfNotExists d w of
        (Some err, w1) \<Rightarrow> (Fail err, w1)
      | (None, w1) \<Rightarrow>
          (case encrypt c val (cryptoKey d) w1 of
             (Fail err, w2) \<Rightarrow> (Fail err, w2)
           | (Panicked, w2) \<Rightarrow> (Panicked, w2)
           | (Return encryptedData, w2) \<Rightarrow>
               (let owner = (case os_user w2 of None \<Rightarrow> [] | Some name \<Rightarrow> name)
                in case time_Now w2 of
                     (now, w2') \<Rightarrow>
                       (let newStore = \<lparr>Value = encryptedData,
                                        KeyInfo = \<lparr>Name = key, CreatedAt = now,
                                                   Owner = owner, Info = []\<rparr>\<rparr>
                        in case getStore j d w2' of
                             (Fail err, w3) \<Rightarrow> (Fail err, w3)
                           | (Panicked, w3) \<Rightarrow> (Panicked, w3)
                           | (Return discStoreEntries, w3) \<Rightarrow>
                               (let store = (if discStoreEntries \<noteq> []
                                             then [] @ discStoreEntries else []);
                                    store' = store @ [newStore]
                                in case json_Marshal j store' of
                                     Inl err \<Rightarrow> (Fail err, w3)
                                   | Inr data \<Rightarrow>
                                       (case ioutil_WriteFile (storeLocation d) data w3 of
                                          (Some err, w4) \<Rightarrow> (Fail err, w4)
                                        | (None, w4) \<Rightarrow> (Return (), w4)))))))"

text \<open>
  The loop of \<^verbatim>\<open>FileStore.Delete\<close> keeps the entries whose name differs from the key.
  Nothing is marshalled when none is left: the bytes written are then \<^verbatim>\<open>[]byte("")\<close>.
\<close>

fun Delete_keep :: "string \<Rightarrow> FileStoreEntry list \<Rightarrow> FileStoreEntry list \<Rightarrow> FileStoreEntry list" where
  "Delete_keep key newDiscStore [] = newDiscStore"
| "Delete_keep key newDiscStore (entry # rest) =
     Delete_keep key
       (if Name (KeyInfo entry) \<noteq> key then newDiscStore @ [entry] else newDiscStore) rest"

definition FileStore_Delete ::
  "codec \<Rightarrow> FileStore \<Rightarrow> string \<Rightarrow> world \<Rightarrow> unit outcome \<times> world" where
  "FileStore_Delete j d key w =
     (case getStore j d w of
        (Fail err, w1) \<Rightarrow> (Fail err, w1)
      | (Panicked, w1) \<Rightarrow> (Panicked, w1)
      | (Return discStoreEntries, w1) \<Rightarrow>
          (let newDiscStore = Delete_keep key [] discStoreEntries
           in case (if length newDiscStore > 0 then json_Marshal j newDiscStore else Inr []) of
                Inl err \<Rightarrow> (Fail err, w1)
              | Inr data \<Rightarrow>
                  (case ioutil_WriteFile (storeLocation d) data w1 of
                     (Some err, w2) \<Rightarrow> (Fail err, w2)
                   | (None, w2) \<Rightarrow> (Return (), w2))))"

section \<open>Remote backends\<close>

text \<open>
  Modelled from the spec: the declaration of \<^verbatim>\<open>backend.Profile\<close> is not among the
  sources. Of the profile (the scope descriptor of the external interfaces: project
  identifier and backend-specific connection parameters) the backends modelled here read
  the project identifier and Vault's mount path.
\<close>

record Profile =
  ProjectID :: string
  VaultMountPath :: string

text \<open>
  The Vault SDK and \<^verbatim>\<open>path.Join\<close> are libraries, parameters of the model over the state
  \<open>'srv\<close> of the server: \<open>KvV2Read path mount\<close> gives the error of the read (the
  functions modelled do not use its response) and \<open>KvV2Write path value mount\<close> writes
  the data \<^verbatim>\<open>{"value": value}\<close>. An error \<open>err\<close> satisfies
  \<^verbatim>\<open>errors.As(err, &vaultErr) && vaultErr.StatusCode == http.StatusNotFound\<close> when it is
  \<open>ResponseError 404\<close>.
\<close>

record 'srv vault_sdk =
  path_Join :: "string \<Rightarrow> string \<Rightarrow> string"
  KvV2Read :: "string \<Rightarrow> string \<Rightarrow> 'srv \<Rightarrow> error option"
  KvV2Write :: "string \<Rightarrow> string \<Rightarrow> string \<Rightarrow> 'srv \<Rightarrow> error option \<times> 'srv"

definition getMountPath :: "Profile \<Rightarrow> string" where
  "getMountPath p = (if VaultMountPath p \<noteq> [] then VaultMountPath p else ''secret'')"

definition VaultStore_CheckExists ::
  "'srv vault_sdk \<Rightarrow> Profile \<Rightarrow> string \<Rightarrow> 'srv \<Rightarrow> error + bool" where
  "VaultStore_CheckExists v p key srv =
     (case KvV2Read v (path_Join v (ProjectID p) key) (getMountPath p) srv of
        Some err \<Rightarrow> (if err = ResponseError 404 then Inr False else Inl err)
      | None \<Rightarrow> Inr True)"

text \<open>
  \<^verbatim>\<open>VaultStore.Put(ctx, p, key, value, overwrite)\<close>: without \<open>overwrite\<close> the key is
  looked up first, and an existing key ends the call with an error before anything is
  written.
\<close>

definition VaultStore_Put ::
  "'srv vault_sdk \<Rightarrow> Profile \<Rightarrow> string \<Rightarrow> string \<Rightarrow> bool \<Rightarrow> 'srv \<Rightarrow> error option \<times> 'srv" where
  "VaultStore_Put v p key val overwrite srv =
     (case (if \<not> overwrite
            then (case VaultStore_CheckExists v p key srv of
                    Inl err \<Rightarrow> Some err
                  | Inr exists \<Rightarrow>
                      if exists
                      then Some (ErrorString
                             (''secret with key '' @ [CHR 0x27] @ key @ [CHR 0x27]
                                @ '' already exists''))
                      else None)
            else None) of
        Some err \<Rightarrow> (Some err, srv)
      | None \<Rightarrow> KvV2Write v (path_Join v (ProjectID p) key) val (getMountPath p) srv)"

text \<open>
  \<^verbatim>\<open>AWSSecretManager.Put(ctx, p, key, value, overwrite)\<close>: the call
  \<^verbatim>\<open>client.PutSecretValue\<close> of the AWS SDK, a parameter of the model taking the secret id
  and the secret string, and its error.
\<close>

definition AWSSecretManager_Put ::
  "(string \<Rightarrow> string \<Rightarrow> 'srv \<Rightarrow> error option \<times> 'srv)
     \<Rightarrow> Profile \<Rightarrow> string \<Rightarrow> string \<Rightarrow> bool \<Rightarrow> 'srv \<Rightarrow> error option \<times> 'srv" where
  "AWSSecretManager_Put PutSecretValue p key val overwrite srv =
     (case PutSecretValue key val srv of
        (Some err, srv') \<Rightarrow> (Some err, srv')
      | (None, srv') \<Rightarrow> (None, srv'))"

section \<open>The restore command\<close>

text \<open>
  \<^verbatim>\<open>case "restore"\<close> of \<^verbatim>\<open>main\<close>. Its inputs are what \<^verbatim>\<open>os.ReadFile(*oPath)\<close> returned,
  \<^verbatim>\<open>json.Unmarshal\<close> into a \<^verbatim>\<open>map[string][]byte\<close> (a parameter; the pairs come in the
  order in which the loop ranges over the map) and the \<^verbatim>\<open>Put\<close> of the backend for the
  target profile, over the state \<open>'b\<close> of the backend. \<^verbatim>\<open>log.Fatalf\<close> ends the process;
  a failed \<^verbatim>\<open>Put\<close> is logged and the loop goes on.
\<close>

datatype restore_result =
    Fatal string error
  | Restored nat "(string \<times> error) list"

fun restore_loop ::
  "(string \<Rightarrow> string \<Rightarrow> bool \<Rightarrow> 'b \<Rightarrow> error option \<times> 'b)
     \<Rightarrow> (string \<times> bytes) list \<Rightarrow> (string \<times> error) list \<Rightarrow> 'b
     \<Rightarrow> (string \<times> error) list \<times> 'b" where
  "restore_loop put [] logged b = (logged, b)"
| "restore_loop put ((k, v) # items) logged b =
     (case put (k @ ''_restore'') v False b of
        (Some err, b') \<Rightarrow> restore_loop put items (logged @ [(k, err)]) b'
      | (None, b') \<Rightarrow> restore_loop put items logged b')"

definition restore ::
  "(bytes \<Rightarrow> error + (string \<times> bytes) list)
     \<Rightarrow> (string \<Rightarrow> string \<Rightarrow> bool \<Rightarrow> 'b \<Rightarrow> error option \<times> 'b)
     \<Rightarrow> error + bytes \<Rightarrow> 'b \<Rightarrow> restore_result \<times> 'b" where
  "restore json_Unmarshal_items put readFile b =
     (case readFile of
        Inl err \<Rightarrow> (Fatal ''read'' err, b)
      | Inr buf \<Rightarrow>
          (case json_Unmarshal_items buf of
             Inl err \<Rightarrow> (Fatal ''decode'' err, b)
           | Inr items \<Rightarrow>
               (case restore_loop put items [] b of
                  (logged, b') \<Rightarrow> (Restored (length items) logged, b'))))"

section \<open>Contracts of the libraries\<close>

text \<open>
  What the statements below assume of the libraries, as their documentation states it,
  for the arguments the store passes: \<^verbatim>\<open>argon2.Key\<close> with key length 32 returns 32
  bytes; with a key of 32 bytes and a nonce of 24, \<^verbatim>\<open>Open\<close> under the key and nonce of
  a \<^verbatim>\<open>Seal\<close> returns the plaintext sealed, and \<^verbatim>\<open>Seal\<close> adds \<^verbatim>\<open>Overhead = 16\<close>
  bytes, the Poly1305 tag.
\<close>

definition kdf_length :: "crypto \<Rightarrow> bool" where
  "kdf_length c = (\<forall>pass salt. length (argon2_Key c pass salt 3 (32 * 1024) 4 32) = 32)"

definition aead_inverse :: "crypto \<Rightarrow> bool" where
  "aead_inverse c =
     (\<forall>key nonce pt. length key = 32 \<and> length nonce = 24 \<longrightarrow>
        aead_Open c key nonce (aead_Seal c key nonce pt) = Some pt)"

definition aead_overhead :: "crypto \<Rightarrow> bool" where
  "aead_overhead c =
     (\<forall>key nonce pt. length key = 32 \<and> length nonce = 24 \<longrightarrow>
        length (aead_Seal c key nonce pt) = length pt + 16)"

text \<open>
  \<open>supplies ns es\<close>: the next reads of the random source deliver, without error, at
  least \<open>ns\<close> bytes each.
\<close>

fun supplies :: "nat list \<Rightarrow> (bytes \<times> error option) list \<Rightarrow> bool" where
  "supplies [] es = True"
| "supplies (n # ns) [] = False"
| "supplies (n # ns) ((bs, err) # es) = (err = None \<and> n \<le> length bs \<and> supplies ns es)"

text \<open>
  \<open>json_reads_back j ys\<close>: the sequence \<open>ys\<close> marshals to a non-empty document that
  unmarshals to \<open>ys\<close> again.
\<close>

definition json_reads_back :: "codec \<Rightarrow> FileStoreEntry list \<Rightarrow> bool" where
  "json_reads_back j ys =
     (\<exists>doc. doc \<noteq> [] \<and> json_Marshal j ys = Inr doc \<and> json_Unmarshal j doc = Inr ys)"

text \<open>
  The representation of the store file at path \<open>p\<close>: when the file exists it has zero
  bytes, or it is what \<^verbatim>\<open>json.Marshal\<close> returned for a slice with at least one entry,
  which \<^verbatim>\<open>encoding/json\<close> renders as a JSON array (\<^verbatim>\<open>null\<close> is its rendering of a nil
  slice and \<^verbatim>\<open>[]\<close> that of an empty one).
\<close>

definition store_file_ok :: "codec \<Rightarrow> string \<Rightarrow> world \<Rightarrow> bool" where
  "store_file_ok j p w =
     (case files w p of
        None \<Rightarrow> True
      | Some bs \<Rightarrow> bs = [] \<or> (\<exists>ys. ys \<noteq> [] \<and> json_Marshal j ys = Inr bs))"

text \<open>
  \<open>untorn w\<close>: no pending fault leaves part of a document behind. A failed write
  then leaves the file as it was or with zero bytes.
\<close>

definition harmless :: "fault option \<Rightarrow> bool" where
  "harmless f =
     (case f of
        None \<Rightarrow> True
      | Some (Fault e written) \<Rightarrow> (case written of None \<Rightarrow> True | Some n \<Rightarrow> n = 0))"

definition untorn :: "world \<Rightarrow> bool" where
  "untorn w = (\<forall>f\<in>set (faults w). harmless f)"

section \<open>An instance of the library contracts\<close>

text \<open>
  A small key derivation, AEAD and document codec that meet the contracts above. They
  stand in for the libraries where a statement is evaluated on concrete data. The
  key derivation pads or cuts password and salt to the key length; the seal appends
  a 16-byte tag taken from key and nonce; the codec writes each field with its length in
  front.
\<close>

definition demo_Key :: "bytes \<Rightarrow> bytes \<Rightarrow> nat \<Rightarrow> nat \<Rightarrow> nat \<Rightarrow> nat \<Rightarrow> bytes" where
  "demo_Key pass salt t m p n = take n (pass @ salt @ replicate n (CHR 0x00))"

definition demo_tag :: "bytes \<Rightarrow> bytes \<Rightarrow> bytes" where
  "demo_tag key nonce = take 16 (key @ nonce @ replicate 16 (CHR 0x00))"

definition demo_Seal :: "bytes \<Rightarrow> bytes \<Rightarrow> bytes \<Rightarrow> bytes" where
  "demo_Seal key nonce pt = pt @ demo_tag key nonce"

definition demo_Open :: "bytes \<Rightarrow> bytes \<Rightarrow> bytes \<Rightarrow> bytes option" where
  "demo_Open key nonce ct =
     (if length ct < 16 then None
      else if drop (length ct - 16) ct = demo_tag key nonce
           then Some (take (length ct - 16) ct)
           else None)"

definition demo_crypto :: crypto where
  "demo_crypto = \<lparr>argon2_Key = demo_Key, aead_Seal = demo_Seal, aead_Open = demo_Open\<rparr>"

definition enc_str :: "bytes \<Rightarrow> bytes" where
  "enc_str s = replicate (length s) (CHR ''+'') @ CHR ''.'' # s"

definition dec_str :: "bytes \<Rightarrow> (bytes \<times> bytes) option" where
  "dec_str bs =
     (let n = length (takeWhile (\<lambda>c. c = CHR ''+'') bs)
      in case drop n bs of
           [] \<Rightarrow> None
         | sep # body \<Rightarrow>
             if sep \<noteq> CHR ''.'' \<or> length body < n then None
             else Some (take n body, drop n body))"

definition enc_int :: "int \<Rightarrow> bytes" where
  "enc_int i = (if i < 0 then CHR ''-'' else CHR ''0'') # enc_str (replicate (nat \<bar>i\<bar>) (CHR ''1''))"

definition dec_int :: "bytes \<Rightarrow> (int \<times> bytes) option" where
  "dec_int bs =
     (case bs of
        [] \<Rightarrow> None
      | sg # rest \<Rightarrow>
          (case dec_str rest of
             None \<Rightarrow> None
           | Some (digits, rest') \<Rightarrow>
               Some (if sg = CHR ''-'' then - int (length digits) else int (length digits), rest')))"

definition enc_entry :: "FileStoreEntry \<Rightarrow> bytes" where
  "enc_entry e =
     enc_str (Value e) @ enc_str (Name (KeyInfo e)) @ enc_int (CreatedAt (KeyInfo e))
       @ enc_str (Owner (KeyInfo e)) @ enc_str (Info (KeyInfo e))"

definition dec_entry :: "bytes \<Rightarrow> (FileStoreEntry \<times> bytes) option" where
  "dec_entry bs =
     (case dec_str bs of None \<Rightarrow> None | Some (v, r1) \<Rightarrow>
     (case dec_str r1 of None \<Rightarrow> None | Some (n, r2) \<Rightarrow>
     (case dec_int r2 of None \<Rightarrow> None | Some (t, r3) \<Rightarrow>
     (case dec_str r3 of None \<Rightarrow> None | Some (ow, r4) \<Rightarrow>
     (case dec_str r4 of None \<Rightarrow> None | Some (desc, r5) \<Rightarrow>
        Some (\<lparr>Value = v, KeyInfo = \<lparr>Name = n, CreatedAt = t, Owner = ow, Info = desc\<rparr>\<rparr>, r5))))))"

fun enc_list :: "FileStoreEntry list \<Rightarrow> bytes" where
  "enc_list [] = []"
| "enc_list (e # es) = CHR ''#'' # enc_entry e @ enc_list es"

fun dec_list :: "nat \<Rightarrow> bytes \<Rightarrow> FileStoreEntry list option" where
  "dec_list fuel [] = Some []"
| "dec_list 0 (c # r) = None"
| "dec_list (Suc n) (c # r) =
     (if c \<noteq> CHR ''#'' then None
      else (case dec_entry r of
              None \<Rightarrow> None
            | Some (e, r') \<Rightarrow>
                (case dec_list n r' of None \<Rightarrow> None | Some es \<Rightarrow> Some (e # es))))"

definition demo_Marshal :: "FileStoreEntry list \<Rightarrow> error + bytes" where
  "demo_Marshal ys = Inr (enc_list ys)"

definition demo_Unmarshal :: "bytes \<Rightarrow> error + FileStoreEntry list" where
  "demo_Unmarshal bs =
     (case dec_list (length bs) bs of
        None \<Rightarrow> Inl (JSONError ''invalid document'')
      | Some ys \<Rightarrow> Inr ys)"

definition demo_codec :: codec where
  "demo_codec = \<lparr>json_Marshal = demo_Marshal, json_Unmarshal = demo_Unmarshal\<rparr>"

text \<open>
  A store; a world with no file, no pending fault and four random reads; a ciphertext
  under the passphrase of the store and an entry holding it; a world whose store file
  holds given entries; a world whose store file is not a document; a world whose store
  file already holds a record named \<^verbatim>\<open>db-pass\<close>; a world whose store file is empty and
  whose fourth file system call fails with \<^verbatim>\<open>ENOSPC\<close> after one byte was written; and
  \<open>Put\<close> under the name \<^verbatim>\<open>db-pass\<close> into the store.
\<close>

definition demo_store :: FileStore where
  "demo_store = \<lparr>storeLocation = ''/home/alice/demo.secrets.kiya'', projectID = ''demo'',
                  cryptoKey = ''hunter2''\<rparr>"

definition demo_world :: world where
  "demo_world =
     \<lparr>files = Map.empty, faults = [],
      entropy = [(replicate 16 (CHR ''s''), None), (replicate 24 (CHR ''n''), None),
                 (replicate 16 (CHR ''t''), None), (replicate 24 (CHR ''m''), None)],
      clock = (\<lambda>n. 1700000000 + int n), now_calls = 0, os_user = Some ''alice''\<rparr>"

definition demo_blob :: "bytes \<Rightarrow> bytes" where
  "demo_blob pt =
     replicate 16 (CHR ''s'') @ replicate 24 (CHR ''n'')
       @ demo_Seal (demo_Key ''hunter2'' (replicate 16 (CHR ''s'')) 3 (32 * 1024) 4 32)
           (replicate 24 (CHR ''n'')) pt"

definition demo_entry :: "string \<Rightarrow> bytes \<Rightarrow> FileStoreEntry" where
  "demo_entry name pt =
     \<lparr>Value = demo_blob pt,
      KeyInfo = \<lparr>Name = name, CreatedAt = 0, Owner = ''alice'', Info = []\<rparr>\<rparr>"

definition stored_world :: "FileStoreEntry list \<Rightarrow> world" where
  "stored_world ys = demo_world\<lparr>files := [storeLocation demo_store \<mapsto> enc_list ys]\<rparr>"

definition damaged_world :: world where
  "damaged_world = demo_world\<lparr>files := [storeLocation demo_store \<mapsto> ''not a store'']\<rparr>"

definition crowded_world :: world where
  "crowded_world = stored_world [demo_entry ''db-pass'' ''old'']"

definition torn_world :: world where
  "torn_world =
     demo_world\<lparr>files := [storeLocation demo_store \<mapsto> []],
                 faults := [None, None, None, Some (Fault 28 (Some 1))]\<rparr>"

definition demo_Put :: "string \<Rightarrow> world \<Rightarrow> unit outcome \<times> world" where
  "demo_Put val w = FileStore_Put demo_crypto demo_codec demo_store ''db-pass'' val w"

text \<open>
  In-memory services for the remote backends: a Vault whose secrets are a map from path
  to value, a Secrets Manager whose \<^verbatim>\<open>PutSecretValue\<close> stores a new value for a secret
  that exists and reports a missing one, and a backend whose \<^verbatim>\<open>Put\<close> records its
  arguments.
\<close>

definition mem_vault :: "(string \<rightharpoonup> string) vault_sdk" where
  "mem_vault =
     \<lparr>path_Join = (\<lambda>a b. a @ ''/'' @ b),
      KvV2Read = (\<lambda>path mount srv. if srv path = None then Some (ResponseError 404) else None),
      KvV2Write = (\<lambda>path val mount srv. (None, srv(path \<mapsto> val)))\<rparr>"

definition mem_PutSecretValue ::
  "string \<Rightarrow> string \<Rightarrow> (string \<rightharpoonup> string) \<Rightarrow> error option \<times> (string \<rightharpoonup> string)" where
  "mem_PutSecretValue key val srv =
     (if srv key = None then (Some (ClientError ''ResourceNotFoundException''), srv)
      else (None, srv(key \<mapsto> val)))"

definition demo_profile :: Profile where
  "demo_profile = \<lparr>ProjectID = ''demo'', VaultMountPath = []\<rparr>"

definition record_Put ::
  "string \<Rightarrow> string \<Rightarrow> bool \<Rightarrow> (string \<times> string \<times> bool) list
     \<Rightarrow> error option \<times> (string \<times> string \<times> bool) list" where
  "record_Put key val overwrite calls = (None, calls @ [(key, val, overwrite)])"

section \<open>The cipher\<close>

lemma kdf_lengthD:
  "kdf_length c \<Longrightarrow> length (argon2_Key c pass salt 3 (32 * 1024) 4 32) = 32"
  unfolding kdf_length_def by blast

lemma aead_inverseD:
  "aead_inverse c \<Longrightarrow> length key = 32 \<Longrightarrow> length nonce = 24 \<Longrightarrow>
     aead_Open c key nonce (aead_Seal c key nonce pt) = Some pt"
  unfolding aead_inverse_def by blast

lemma aead_overheadD:
  "aead_overhead c \<Longrightarrow> length key = 32 \<Longrightarrow> length nonce = 24 \<Longrightarrow>
     length (aead_Seal c key nonce pt) = length pt + 16"
  unfolding aead_overhead_def by blast

lemma makeNonce_supplied:
  "entropy w = (bs, None) # es \<Longrightarrow> n \<le> length bs \<Longrightarrow>
   makeNonce n w = (Return (take n bs), w\<lparr>entropy := es\<rparr>)"
  by (simp add: makeNonce_def rand_Read_def min_def)

lemma makeNonce_Return:
  "makeNonce n w = (Return s, w') \<Longrightarrow>
   length s = n \<and> (\<exists>bs es. entropy w = (bs, None) # es \<and> n \<le> length bs \<and> s = take n bs \<and> w' = w\<lparr>entropy := es\<rparr>)"
  by (auto simp: makeNonce_def rand_Read_def min_def Let_def split: list.splits if_splits prod.splits)

lemma decrypt_split:
  assumes "length salt = 16" "length nonce = 24"
  shows "decrypt c (salt @ nonce @ ct) P =
     (case chacha20poly1305_NewX (argon2_Key c P salt 3 (32 * 1024) 4 32) of
        Panicked \<Rightarrow> Panicked
      | Fail e \<Rightarrow> Fail e
      | Return cipher \<Rightarrow>
          (case aead_Open c cipher nonce ct of
             None \<Rightarrow> Fail errOpen
           | Some plaintext \<Rightarrow> Return plaintext))"
  using assms by (simp add: decrypt_def slice_def Let_def)

lemma encrypt_Return:
  assumes "encrypt c B P w = (Return blob, w')"
  shows "\<exists>salt nonce. length salt = 16 \<and> length nonce = 24 \<and> length (argon2_Key c P salt 3 (32 * 1024) 4 32) = 32 \<and>
     blob = salt @ nonce @ aead_Seal c (argon2_Key c P salt 3 (32 * 1024) 4 32) nonce B"
  using assms
  apply (simp add: encrypt_def chacha20poly1305_NewX_def split: prod.splits outcome.splits if_splits)
  apply (auto dest!: makeNonce_Return)
  done

lemma encrypt_supplied:
  assumes "supplies [16, 24] (entropy w)" "kdf_length c"
  shows "\<exists>salt nonce w'. length salt = 16 \<and> length nonce = 24 \<and>
     encrypt c B P w =
       (Return (salt @ nonce @ aead_Seal c (argon2_Key c P salt 3 (32 * 1024) 4 32) nonce B), w')"
proof -
  from assms(1) obtain b1 b2 es where e: "entropy w = (b1, None) # (b2, None) # es"
    and l: "16 \<le> length b1" "24 \<le> length b2"
    by (auto elim!: supplies.elims)
  have k: "length (argon2_Key c P (take 16 b1) 3 (32 * 1024) 4 32) = 32"
    using kdf_lengthD[OF assms(2)] .
  have n1: "makeNonce 16 w = (Return (take 16 b1), w\<lparr>entropy := (b2, None) # es\<rparr>)"
    using e l by (simp add: makeNonce_supplied)
  have n2: "makeNonce 24 (w\<lparr>entropy := (b2, None) # es\<rparr>) = (Return (take 24 b2), w\<lparr>entropy := es\<rparr>)"
    using l by (simp add: makeNonce_supplied)
  have "encrypt c B P w =
      (Return (take 16 b1 @ take 24 b2 @
         aead_Seal c (argon2_Key c P (take 16 b1) 3 (32 * 1024) 4 32) (take 24 b2) B),
       w\<lparr>entropy := es\<rparr>)"
    using k by (simp add: encrypt_def n1 n2 chacha20poly1305_NewX_def)
  moreover have "length (take 16 b1) = 16" "length (take 24 b2) = 24"
    using l by simp_all
  ultimately show ?thesis by blast
qed

lemma decrypt_of_encrypt:
  assumes "aead_inverse c" and "encrypt c B P w = (Return blob, w')"
  shows "decrypt c blob P = Return B"
proof -
  from encrypt_Return[OF assms(2)] obtain salt nonce where
    s: "length salt = 16" "length nonce = 24"
    and k: "length (argon2_Key c P salt 3 (32 * 1024) 4 32) = 32"
    and b: "blob = salt @ nonce @ aead_Seal c (argon2_Key c P salt 3 (32 * 1024) 4 32) nonce B"
    by blast
  have "aead_Open c (argon2_Key c P salt 3 (32 * 1024) 4 32) nonce
          (aead_Seal c (argon2_Key c P salt 3 (32 * 1024) 4 32) nonce B) = Some B"
    using aead_inverseD[OF assms(1) k s(2)] .
  then show ?thesis
    using s k by (simp add: b decrypt_split chacha20poly1305_NewX_def)
qed

lemma length_demo_tag: "length (demo_tag key nonce) = 16"
  by (auto simp: demo_tag_def min_def)

lemma demo_kdf_length: "kdf_length demo_crypto"
  by (auto simp: kdf_length_def demo_crypto_def demo_Key_def min_def)

lemma demo_aead_inverse: "aead_inverse demo_crypto"
  by (simp add: aead_inverse_def demo_crypto_def demo_Seal_def demo_Open_def length_demo_tag)

lemma demo_aead_overhead: "aead_overhead demo_crypto"
  by (simp add: aead_overhead_def demo_crypto_def demo_Seal_def length_demo_tag)

text \<open>
  Claim C1. For every plaintext \<open>B\<close> and passphrase \<open>P\<close>, decrypting what \<open>encrypt\<close>
  returned for \<open>B\<close> under \<open>P\<close>, with \<open>P\<close> again, returns \<open>B\<close>; and \<open>encrypt\<close> does return
  a blob whenever the random source delivers the 16 and the 24 bytes asked of it.
\<close>

theorem encrypt_decrypt_roundtrip:
  assumes "kdf_length c" and "aead_inverse c"
  shows "(supplies [16, 24] (entropy w) \<longrightarrow>
            (\<exists>blob w'. encrypt c B P w = (Return blob, w') \<and> decrypt c blob P = Return B))
       \<and> (\<forall>blob w'. encrypt c B P w = (Return blob, w') \<longrightarrow> decrypt c blob P = Return B)"
proof -
  have rt: "decrypt c blob P = Return B" if "encrypt c B P w = (Return blob, w')" for blob w'
    using decrypt_of_encrypt[OF assms(2) that] .
  moreover have "\<exists>blob w'. encrypt c B P w = (Return blob, w')" if "supplies [16, 24] (entropy w)"
    using encrypt_supplied[OF that assms(1)] by blast
  ultimately show ?thesis by blast
qed

theorem encrypt_decrypt_roundtrip_witness:
  "kdf_length demo_crypto \<and> aead_inverse demo_crypto \<and> supplies [16, 24] (entropy demo_world)
   \<and> (\<exists>blob w'. encrypt demo_crypto ''s3cr3t'' ''hunter2'' demo_world = (Return blob, w')
         \<and> decrypt demo_crypto blob ''hunter2'' = Return ''s3cr3t'')"
  using encrypt_decrypt_roundtrip [OF demo_kdf_length demo_aead_inverse,
      of demo_world "''s3cr3t''" "''hunter2''"]
  by (simp add: demo_kdf_length demo_aead_inverse demo_world_def)

text \<open>
  Claim C9. The blob returned by \<open>encrypt\<close> is exactly \<open>56 + length B\<close> bytes long (salt
  16, nonce 24, ciphertext with its 16-byte tag), hence longer than the 40 bytes
  \<open>decrypt\<close> requires; and \<open>encrypt\<close> returns one whenever the random source delivers.
\<close>

theorem encrypt_blob_length:
  assumes "kdf_length c" and "aead_overhead c"
  shows "(supplies [16, 24] (entropy w) \<longrightarrow>
            (\<exists>blob w'. encrypt c B P w = (Return blob, w') \<and> length blob = 56 + length B))
       \<and> (\<forall>blob w'. encrypt c B P w = (Return blob, w') \<longrightarrow>
            length blob = 56 + length B \<and> 40 < length blob)"
proof -
  have len: "length blob = 56 + length B" if "encrypt c B P w = (Return blob, w')" for blob w'
  proof -
    from encrypt_Return[OF that] obtain salt nonce where
      s: "length salt = 16" "length nonce = 24"
      and k: "length (argon2_Key c P salt 3 (32 * 1024) 4 32) = 32"
      and b: "blob = salt @ nonce @ aead_Seal c (argon2_Key c P salt 3 (32 * 1024) 4 32) nonce B"
      by blast
    have "length (aead_Seal c (argon2_Key c P salt 3 (32 * 1024) 4 32) nonce B) = length B + 16"
      using aead_overheadD[OF assms(2) k s(2)] .
    then show ?thesis using s by (simp add: b)
  qed
  moreover have "\<exists>blob w'. encrypt c B P w = (Return blob, w')" if "supplies [16, 24] (entropy w)"
    using encrypt_supplied[OF that assms(1)] by blast
  ultimately show ?thesis by fastforce
qed

theorem encrypt_blob_length_witness:
  "kdf_length demo_crypto \<and> aead_overhead demo_crypto \<and> supplies [16, 24] (entropy demo_world)
   \<and> (\<exists>blob w'. encrypt demo_crypto ''s3cr3t'' ''hunter2'' demo_world = (Return blob, w')
         \<and> length blob = 62)"
  using encrypt_blob_length [OF demo_kdf_length demo_aead_overhead,
      of demo_world "''s3cr3t''" "''hunter2''"]
  by (simp add: demo_kdf_length demo_aead_overhead demo_world_def)

text \<open>
  Claim C7. A blob shorter than 40 bytes makes \<open>decrypt\<close> fail with the format error,
  which is not an authentication error; for a blob of 40 bytes or more the salt is its
  first 16 bytes and the nonce the next 24, and the rest is what is opened under the key
  derived from passphrase and salt.
\<close>

theorem decrypt_short_blob:
  "(length blob < 40 \<longrightarrow>
      decrypt c blob P = Fail (ErrorString ''data has incorrect format'')
      \<and> decrypt c blob P \<noteq> Fail errOpen
      \<and> decrypt c blob P \<noteq> Fail (ErrorString ''message authentication failed''))
   \<and> (40 \<le> length blob \<longrightarrow>
      decrypt c blob P =
        (case chacha20poly1305_NewX (argon2_Key c P (take 16 blob) 3 (32 * 1024) 4 32) of
           Panicked \<Rightarrow> Panicked
         | Fail e \<Rightarrow> Fail e
         | Return cipher \<Rightarrow>
             (case aead_Open c cipher (take 24 (drop 16 blob)) (drop 40 blob) of
                None \<Rightarrow> Fail errOpen
              | Some plaintext \<Rightarrow> Return plaintext)))"
  by (simp add: decrypt_def slice_def errOpen_def Let_def)

theorem decrypt_short_blob_witness:
  "length ''too short'' < 40
   \<and> decrypt demo_crypto ''too short'' ''hunter2'' = Fail (ErrorString ''data has incorrect format'')
   \<and> 40 \<le> length (replicate 16 (CHR ''s'') @ replicate 24 (CHR ''n'') @ ''tail'')
   \<and> decrypt demo_crypto (replicate 16 (CHR ''s'') @ replicate 24 (CHR ''n'') @ ''tail'') ''hunter2''
       = Fail errOpen"
  using decrypt_short_blob [of "''too short''" demo_crypto "''hunter2''"]
        decrypt_short_blob [of "replicate 16 (CHR ''s'') @ replicate 24 (CHR ''n'') @ ''tail''"
                               demo_crypto "''hunter2''"]
  by (simp add: demo_crypto_def demo_Key_def demo_Open_def chacha20poly1305_NewX_def)

text \<open>
  Keys are 32 bytes and passphrases are unbounded, so for every salt two different
  passphrases derive the same key; a blob sealed under one of them then opens under the
  other. That a wrong passphrase is rejected is a property of the primitives that holds
  up to a negligible probability, not for every pair of passphrases.
\<close>

lemma kdf_collision:
  assumes "kdf_length c"
  shows "\<exists>P1 P2. P1 \<noteq> P2 \<and>
           argon2_Key c P1 salt 3 (32 * 1024) 4 32 = argon2_Key c P2 salt 3 (32 * 1024) 4 32"
proof -
  define f where "f = (\<lambda>P. argon2_Key c P salt 3 (32 * 1024) 4 32)"
  have len: "length (f P) = 32" for P
    using kdf_lengthD[OF assms] unfolding f_def .
  have "range f \<subseteq> {k. set k \<subseteq> (UNIV :: char set) \<and> length k = 32}"
    using len by blast
  moreover have "finite {k. set k \<subseteq> (UNIV :: char set) \<and> length k = 32}"
    by (rule finite_lists_length_eq) simp
  ultimately have fin: "finite (range f)"
    by (rule finite_subset)
  have "\<not> inj f"
  proof
    assume "inj f"
    with fin have "finite (UNIV :: string set)" by (rule finite_imageD)
    then show False using infinite_UNIV_listI by blast
  qed
  then obtain P1 P2 where "P1 \<noteq> P2" "f P1 = f P2"
    unfolding inj_on_def by blast
  then show ?thesis unfolding f_def by blast
qed

lemma other_passphrase_same_key:
  assumes "kdf_length c" and "aead_inverse c" and "supplies [16, 24] (entropy w)"
  shows "\<exists>P1 P2 blob w'. P1 \<noteq> P2 \<and> encrypt c B P1 w = (Return blob, w')
           \<and> decrypt c blob P2 = Return B"
proof -
  from assms(3) obtain b1 b2 es where e: "entropy w = (b1, None) # (b2, None) # es"
    and l: "16 \<le> length b1" "24 \<le> length b2"
    by (auto elim!: supplies.elims)
  from kdf_collision[OF assms(1), of "take 16 b1"] obtain P1 P2 where
    ne: "P1 \<noteq> P2"
    and eq: "argon2_Key c P1 (take 16 b1) 3 (32 * 1024) 4 32
           = argon2_Key c P2 (take 16 b1) 3 (32 * 1024) 4 32"
    by blast
  have k: "length (argon2_Key c P (take 16 b1) 3 (32 * 1024) 4 32) = 32" for P
    using kdf_lengthD[OF assms(1)] .
  have n1: "makeNonce 16 w = (Return (take 16 b1), w\<lparr>entropy := (b2, None) # es\<rparr>)"
    using e l by (simp add: makeNonce_supplied)
  have n2: "makeNonce 24 (w\<lparr>entropy := (b2, None) # es\<rparr>) = (Return (take 24 b2), w\<lparr>entropy := es\<rparr>)"
    using l by (simp add: makeNonce_supplied)
  have enc: "encrypt c B P1 w =
      (Return (take 16 b1 @ take 24 b2 @
         aead_Seal c (argon2_Key c P1 (take 16 b1) 3 (32 * 1024) 4 32) (take 24 b2) B),
       w\<lparr>entropy := es\<rparr>)"
    using k[of P1] by (simp add: encrypt_def n1 n2 chacha20poly1305_NewX_def)
  have "aead_Open c (argon2_Key c P1 (take 16 b1) 3 (32 * 1024) 4 32) (take 24 b2)
          (aead_Seal c (argon2_Key c P1 (take 16 b1) 3 (32 * 1024) 4 32) (take 24 b2) B) = Some B"
    using aead_inverseD[OF assms(2) k[of P1]] l by simp
  then have "decrypt c (take 16 b1 @ take 24 b2 @
         aead_Seal c (argon2_Key c P1 (take 16 b1) 3 (32 * 1024) 4 32) (take 24 b2) B) P2
       = Return B"
    using l k[of P1] eq by (subst decrypt_split) (simp_all add: chacha20poly1305_NewX_def)
  with ne enc show ?thesis by blast
qed

section \<open>Reading the store\<close>

lemma not_found_neq_auth: "key @ '' not found'' \<noteq> ''message authentication failed''"
proof
  assume "key @ '' not found'' = ''message authentication failed''"
  then have "rev (key @ '' not found'') = rev ''message authentication failed''" by simp
  then show False by simp
qed

lemma List_collect_map: "List_collect keys storeData = keys @ map KeyInfo storeData"
  by (induction storeData arbitrary: keys) simp_all

lemma Delete_keep_filter:
  "Delete_keep key acc xs = acc @ filter (\<lambda>e. Name (KeyInfo e) \<noteq> key) xs"
  by (induction xs arbitrary: acc) simp_all

lemma CheckExists_scan_iff: "CheckExists_scan key xs \<longleftrightarrow> key \<in> Name ` KeyInfo ` set xs"
  by (induction xs) auto

lemma Get_scan_append_miss:
  "\<forall>e\<in>set xs. Name (KeyInfo e) \<noteq> key \<Longrightarrow> Get_scan c d key (xs @ ys) = Get_scan c d key ys"
  by (induction xs) simp_all

lemma next_fault_none: "faults w = [] \<Longrightarrow> next_fault w = (None, w)"
  by (simp add: next_fault_def)

lemma createStore_present:
  "faults w = [] \<Longrightarrow> files w (storeLocation d) = Some x \<Longrightarrow>
     createStoreIfNotExists d w = (None, w)"
  by (simp add: createStoreIfNotExists_def os_Stat_def next_fault_none)

lemma createStore_absent:
  "faults w = [] \<Longrightarrow> files w (storeLocation d) = None \<Longrightarrow>
     createStoreIfNotExists d w = (None, w\<lparr>files := (files w)(storeLocation d \<mapsto> [])\<rparr>)"
  by (simp add: createStoreIfNotExists_def os_Stat_def ioutil_WriteFile_def next_fault_none)

lemma getStore_present:
  "faults w = [] \<Longrightarrow> files w (storeLocation d) = Some x \<Longrightarrow>
     getStore j d w =
       (if x = [] then Return []
        else (case json_Unmarshal j x of Inl err \<Rightarrow> Fail err | Inr store \<Rightarrow> Return store), w)"
  by (simp add: getStore_def createStore_present ioutil_ReadFile_def next_fault_none
      split: sum.splits)

lemma getStore_absent:
  "faults w = [] \<Longrightarrow> files w (storeLocation d) = None \<Longrightarrow>
     getStore j d w = (Return [], w\<lparr>files := (files w)(storeLocation d \<mapsto> [])\<rparr>)"
  by (simp add: getStore_def createStore_absent ioutil_ReadFile_def next_fault_def)

lemma takeWhile_replicate_stop:
  "b \<noteq> a \<Longrightarrow> takeWhile (\<lambda>c. c = a) (replicate n a @ b # r) = replicate n a"
  by (induction n) simp_all

lemma dec_enc_str: "dec_str (enc_str s @ rest) = Some (s, rest)"
proof -
  have "takeWhile (\<lambda>c. c = CHR ''+'') (enc_str s @ rest) = replicate (length s) (CHR ''+'')"
    by (simp add: enc_str_def takeWhile_replicate_stop)
  then show ?thesis
    by (simp add: dec_str_def enc_str_def)
qed

lemma dec_enc_int: "dec_int (enc_int i @ rest) = Some (i, rest)"
  by (simp add: dec_int_def enc_int_def dec_enc_str)

lemma dec_enc_entry: "dec_entry (enc_entry e @ rest) = Some (e, rest)"
  by (simp add: dec_entry_def enc_entry_def dec_enc_str dec_enc_int)

lemma dec_enc_list: "length ys \<le> n \<Longrightarrow> dec_list n (enc_list ys) = Some ys"
proof (induction ys arbitrary: n)
  case Nil
  then show ?case by simp
next
  case (Cons e es)
  then obtain m where n: "n = Suc m" and m: "length es \<le> m"
    by (cases n) auto
  show ?case
    using Cons.IH[OF m] by (simp add: n dec_enc_entry)
qed

lemma length_enc_list: "length ys \<le> length (enc_list ys)"
  by (induction ys) auto

lemma demo_reads_back:
  assumes "ys \<noteq> []"
  shows "json_reads_back demo_codec ys"
proof -
  have ne: "enc_list ys \<noteq> []"
    using assms by (cases ys) simp_all
  have "demo_Unmarshal (enc_list ys) = Inr ys"
    by (simp add: demo_Unmarshal_def dec_enc_list[OF length_enc_list])
  then show ?thesis
    using ne by (simp add: json_reads_back_def demo_codec_def demo_Marshal_def)
qed

lemma demo_Unmarshal_enc: "demo_Unmarshal (enc_list ys) = Inr ys"
  by (simp add: demo_Unmarshal_def dec_enc_list[OF length_enc_list])

lemma dec_list_no_marker: "c \<noteq> CHR ''#'' \<Longrightarrow> dec_list n (c # r) = None"
  by (cases n) simp_all

lemma demo_blob_decrypt: "decrypt demo_crypto (demo_blob pt) ''hunter2'' = Return pt"
proof -
  have k: "length (demo_Key ''hunter2'' (replicate 16 (CHR ''s'')) 3 (32 * 1024) 4 32) = 32"
    using kdf_lengthD[OF demo_kdf_length] by (simp add: demo_crypto_def)
  have "demo_Open (demo_Key ''hunter2'' (replicate 16 (CHR ''s'')) 3 (32 * 1024) 4 32)
          (replicate 24 (CHR ''n''))
          (demo_Seal (demo_Key ''hunter2'' (replicate 16 (CHR ''s'')) 3 (32 * 1024) 4 32)
             (replicate 24 (CHR ''n'')) pt) = Some pt"
    using aead_inverseD[OF demo_aead_inverse k, of "replicate 24 (CHR ''n'')" pt]
    by (simp add: demo_crypto_def)
  then show ?thesis
    unfolding demo_blob_def
    using k by (subst decrypt_split) (simp_all add: chacha20poly1305_NewX_def demo_crypto_def)
qed

lemma demo_blob_wrong_pass: "decrypt demo_crypto (demo_blob ''s3cr3t'') ''wrong'' = Fail errOpen"
  unfolding demo_blob_def
  by (subst decrypt_split)
     (simp_all add: chacha20poly1305_NewX_def demo_crypto_def demo_Key_def demo_Open_def
        demo_Seal_def demo_tag_def)

lemma stored_world_load:
  "getStore demo_codec (demo_store\<lparr>cryptoKey := P\<rparr>) (stored_world (y # ys)) = (Return (y # ys), stored_world (y # ys))"
proof -
  have nf: "faults (stored_world (y # ys)) = []"
    by (simp add: stored_world_def demo_world_def)
  have ex: "files (stored_world (y # ys)) (storeLocation (demo_store\<lparr>cryptoKey := P\<rparr>)) = Some (enc_list (y # ys))"
    by (simp add: stored_world_def)
  show ?thesis
    using getStore_present[OF nf ex, of demo_codec] demo_Unmarshal_enc[of "y # ys"]
    by (simp add: demo_codec_def)
qed

text \<open>
  Claim C2. When the store loads as \<open>storeData\<close>, \<open>Get\<close> fails with the not-found error
  if no record has the name; otherwise the first record with the name, in stored order,
  decides: \<open>Get\<close> returns its decryption, or fails with the authentication error when
  decryption fails. The two errors differ.
\<close>

theorem Get_first_match:
  assumes "fst (getStore j d w) = Return storeData"
  shows "((\<forall>e\<in>set storeData. Name (KeyInfo e) \<noteq> key) \<longrightarrow>
            fst (FileStore_Get c j d key w) = Fail (ErrorString (key @ '' not found'')))
       \<and> (\<forall>pre e post.
            storeData = pre @ e # post \<and> (\<forall>x\<in>set pre. Name (KeyInfo x) \<noteq> key)
              \<and> Name (KeyInfo e) = key \<longrightarrow>
            (\<forall>v. decrypt c (Value e) (cryptoKey d) = Return v \<longrightarrow>
                 fst (FileStore_Get c j d key w) = Return v)
          \<and> (\<forall>err. decrypt c (Value e) (cryptoKey d) = Fail err \<longrightarrow>
                 fst (FileStore_Get c j d key w)
                   = Fail (ErrorString ''message authentication failed'')))
       \<and> ErrorString ''message authentication failed'' \<noteq> ErrorString (key @ '' not found'')"
proof -
  obtain w1 where g: "getStore j d w = (Return storeData, w1)"
    using assms by (cases "getStore j d w") simp
  have get: "fst (FileStore_Get c j d key w) = Get_scan c d key storeData"
    by (simp add: FileStore_Get_def g)
  have miss: "Get_scan c d key storeData = Fail (ErrorString (key @ '' not found''))"
    if "\<forall>e\<in>set storeData. Name (KeyInfo e) \<noteq> key"
    using Get_scan_append_miss[OF that, of c d "[]"] by simp
  have hit: "Get_scan c d key (pre @ e # post) =
               (case decrypt c (Value e) (cryptoKey d) of
                  Return plaintext \<Rightarrow> Return plaintext
                | Fail err \<Rightarrow> Fail (ErrorString ''message authentication failed'')
                | Panicked \<Rightarrow> Panicked)"
    if "\<forall>x\<in>set pre. Name (KeyInfo x) \<noteq> key" "Name (KeyInfo e) = key" for pre e post
    using that by (simp add: Get_scan_append_miss)
  show ?thesis
    using miss hit not_found_neq_auth[of key] by (auto simp: get)
qed

theorem Get_first_match_witness:
  "fst (getStore demo_codec demo_store
          (stored_world [demo_entry ''db-pass'' ''s3cr3t'', demo_entry ''db-pass'' ''other'']))
     = Return [demo_entry ''db-pass'' ''s3cr3t'', demo_entry ''db-pass'' ''other'']
   \<and> fst (FileStore_Get demo_crypto demo_codec demo_store ''db-pass''
          (stored_world [demo_entry ''db-pass'' ''s3cr3t'', demo_entry ''db-pass'' ''other'']))
     = Return ''s3cr3t''
   \<and> fst (FileStore_Get demo_crypto demo_codec demo_store ''api-key''
          (stored_world [demo_entry ''db-pass'' ''s3cr3t'', demo_entry ''db-pass'' ''other'']))
     = Fail (ErrorString ''api-key not found'')
   \<and> fst (FileStore_Get demo_crypto demo_codec (demo_store\<lparr>cryptoKey := ''wrong''\<rparr>) ''db-pass''
          (stored_world [demo_entry ''db-pass'' ''s3cr3t'', demo_entry ''db-pass'' ''other'']))
     = Fail (ErrorString ''message authentication failed'')"
proof -
  let ?xs = "[demo_entry ''db-pass'' ''s3cr3t'', demo_entry ''db-pass'' ''other'']"
  have ld: "fst (getStore demo_codec (demo_store\<lparr>cryptoKey := P\<rparr>) (stored_world ?xs)) = Return ?xs" for P
    by (simp add: stored_world_load)
  have ld0: "fst (getStore demo_codec demo_store (stored_world ?xs)) = Return ?xs"
    using ld[of "''hunter2''"] by (simp add: demo_store_def)
  have split: "?xs = [] @ demo_entry ''db-pass'' ''s3cr3t'' # [demo_entry ''db-pass'' ''other'']"
    by simp
  have d1: "decrypt demo_crypto (Value (demo_entry ''db-pass'' ''s3cr3t'')) (cryptoKey demo_store)
              = Return ''s3cr3t''"
    by (simp add: demo_entry_def demo_store_def demo_blob_decrypt)
  have d2: "decrypt demo_crypto (Value (demo_entry ''db-pass'' ''s3cr3t''))
              (cryptoKey (demo_store\<lparr>cryptoKey := ''wrong''\<rparr>)) = Fail errOpen"
    by (simp add: demo_entry_def demo_blob_wrong_pass)
  have n: "Name (KeyInfo (demo_entry ''db-pass'' pt)) = ''db-pass''" for pt
    by (simp add: demo_entry_def)
  from Get_first_match[OF ld0, of "''db-pass''" demo_crypto] split d1 n
  have a: "fst (FileStore_Get demo_crypto demo_codec demo_store ''db-pass'' (stored_world ?xs))
             = Return ''s3cr3t''"
    by (metis empty_iff list.set(1))
  from Get_first_match[OF ld0, of "''api-key''" demo_crypto]
  have b: "fst (FileStore_Get demo_crypto demo_codec demo_store ''api-key'' (stored_world ?xs))
             = Fail (ErrorString ''api-key not found'')"
    by (simp add: demo_entry_def)
  from Get_first_match[OF ld[of "''wrong''"], of "''db-pass''" demo_crypto] split d2 n
  have c: "fst (FileStore_Get demo_crypto demo_codec (demo_store\<lparr>cryptoKey := ''wrong''\<rparr>)
                  ''db-pass'' (stored_world ?xs))
             = Fail (ErrorString ''message authentication failed'')"
    by (metis empty_iff list.set(1))
  show ?thesis using ld0 a b c by simp
qed

section \<open>What the operations do to the files\<close>

lemma next_fault_files: "next_fault w = (f, w') \<Longrightarrow> files w' = files w"
  by (auto simp: next_fault_def split: list.splits)

lemma next_fault_untorn: "untorn w \<Longrightarrow> next_fault w = (f, w') \<Longrightarrow> untorn w' \<and> harmless f"
  by (auto simp: next_fault_def untorn_def harmless_def split: list.splits)

lemma os_Stat_files: "os_Stat p w = (r, w') \<Longrightarrow> files w' = files w"
  by (auto simp: os_Stat_def split: prod.splits option.splits fault.splits dest: next_fault_files)

lemma os_Stat_untorn: "untorn w \<Longrightarrow> os_Stat p w = (r, w') \<Longrightarrow> untorn w'"
  by (auto simp: os_Stat_def split: prod.splits option.splits fault.splits dest: next_fault_untorn)

lemma os_Stat_NotExist:
  "os_Stat p w = (Some ErrNotExist, w') \<Longrightarrow> files w p = None"
  by (auto simp: os_Stat_def split: prod.splits option.splits fault.splits if_splits
      dest: next_fault_files)

lemma WriteFile_files:
  "ioutil_WriteFile p data w = (r, w') \<Longrightarrow>
     (r = None \<and> files w' = (files w)(p \<mapsto> data))
   \<or> (\<exists>e. r = Some (PathError e)
          \<and> (files w' = files w \<or> (\<exists>n. files w' = (files w)(p \<mapsto> take n data))))"
proof -
  assume a: "ioutil_WriteFile p data w = (r, w')"
  obtain f w1 where nf: "next_fault w = (f, w1)" by force
  have f1: "files w1 = files w" using next_fault_files[OF nf] .
  show ?thesis
    using a nf f1
    by (auto simp: ioutil_WriteFile_def split: option.splits fault.splits)
qed

lemma WriteFile_untorn_files:
  "untorn w \<Longrightarrow> ioutil_WriteFile p data w = (r, w') \<Longrightarrow>
     untorn w' \<and> (files w' = (files w)(p \<mapsto> data) \<or> files w' = files w
                  \<or> files w' = (files w)(p \<mapsto> []))"
proof -
  assume u: "untorn w" and a: "ioutil_WriteFile p data w = (r, w')"
  obtain f w1 where nf: "next_fault w = (f, w1)" by force
  from next_fault_untorn[OF u nf] have u1: "untorn w1" and h: "harmless f" by simp_all
  have f1: "files w1 = files w" using next_fault_files[OF nf] .
  show ?thesis
    using a nf u1 h f1
    by (auto simp: ioutil_WriteFile_def harmless_def untorn_def
        split: option.splits fault.splits)
qed

lemma WriteFile_error: "ioutil_WriteFile p data w = (Some err, w') \<Longrightarrow> \<exists>e. err = PathError e"
  using WriteFile_files[of p data w "Some err" w'] by auto

lemma ReadFile_files: "ioutil_ReadFile p w = (r, w') \<Longrightarrow> files w' = files w"
  by (auto simp: ioutil_ReadFile_def split: prod.splits option.splits fault.splits
      dest: next_fault_files)

lemma ReadFile_untorn: "untorn w \<Longrightarrow> ioutil_ReadFile p w = (r, w') \<Longrightarrow> untorn w'"
  by (auto simp: ioutil_ReadFile_def split: prod.splits option.splits fault.splits
      dest: next_fault_untorn)

lemma createStore_files:
  "createStoreIfNotExists d w = (r, w') \<Longrightarrow>
     files w' = files w \<or>
     (files w (storeLocation d) = None \<and> files w' = (files w)(storeLocation d \<mapsto> []))"
proof -
  assume a: "createStoreIfNotExists d w = (r, w')"
  obtain e w1 where st: "os_Stat (storeLocation d) w = (e, w1)" by force
  note f1 = os_Stat_files[OF st]
  show ?thesis
  proof (cases "e = Some ErrNotExist")
    case True
    obtain r2 w2 where wr: "ioutil_WriteFile (storeLocation d) [] w1 = (r2, w2)" by force
    from a st True wr have "w' = w2"
      by (auto simp: createStoreIfNotExists_def split: option.splits)
    moreover have "files w (storeLocation d) = None"
      using st True os_Stat_NotExist by blast
    ultimately show ?thesis
      using WriteFile_files[OF wr] f1 by auto
  next
    case False
    with a st have "w' = w1"
      by (auto simp: createStoreIfNotExists_def split: option.splits if_splits)
    then show ?thesis using f1 by simp
  qed
qed

lemma createStore_untorn:
  assumes "untorn w" and "createStoreIfNotExists d w = (r, w')"
  shows "untorn w'"
proof -
  obtain e w1 where st: "os_Stat (storeLocation d) w = (e, w1)" by force
  have u1: "untorn w1" using os_Stat_untorn[OF assms(1) st] .
  show ?thesis
  proof (cases "e = Some ErrNotExist")
    case True
    obtain r2 w2 where wr: "ioutil_WriteFile (storeLocation d) [] w1 = (r2, w2)" by force
    from assms(2) st True wr have "w' = w2"
      by (auto simp: createStoreIfNotExists_def split: option.splits)
    then show ?thesis using WriteFile_untorn_files[OF u1 wr] by simp
  next
    case False
    with assms(2) st have "w' = w1"
      by (auto simp: createStoreIfNotExists_def split: option.splits if_splits)
    then show ?thesis using u1 by simp
  qed
qed

lemma createStore_exists:
  "files w (storeLocation d) = Some old \<Longrightarrow> createStoreIfNotExists d w = (r, w') \<Longrightarrow>
     files w' = files w"
  using createStore_files by force

lemma rand_Read_same: "rand_Read n w = (r, w') \<Longrightarrow> files w' = files w \<and> faults w' = faults w"
  by (auto simp: rand_Read_def Let_def split: list.splits prod.splits)

lemma makeNonce_same: "makeNonce n w = (r, w') \<Longrightarrow> files w' = files w \<and> faults w' = faults w"
  by (auto simp: makeNonce_def split: prod.splits if_splits dest: rand_Read_same)

lemma encrypt_same: "encrypt c v p w = (r, w') \<Longrightarrow> files w' = files w \<and> faults w' = faults w"
  by (auto simp: encrypt_def split: prod.splits outcome.splits dest!: makeNonce_same)

lemma encrypt_files: "encrypt c v p w = (r, w') \<Longrightarrow> files w' = files w"
  using encrypt_same by blast

lemma encrypt_untorn: "untorn w \<Longrightarrow> encrypt c v p w = (r, w') \<Longrightarrow> untorn w'"
  using encrypt_same[of c v p w r w'] by (simp add: untorn_def)

lemma time_Now_same:
  "files (snd (time_Now w)) = files w \<and> faults (snd (time_Now w)) = faults w"
  by (simp add: time_Now_def)

lemma time_Now_untorn: "untorn w \<Longrightarrow> untorn (snd (time_Now w))"
  by (simp add: untorn_def time_Now_def)

lemma getStore_files:
  "getStore j d w = (r, w') \<Longrightarrow>
     files w' = files w \<or>
     (files w (storeLocation d) = None \<and> files w' = (files w)(storeLocation d \<mapsto> []))"
  by (auto simp: getStore_def split: prod.splits option.splits sum.splits if_splits
      dest!: createStore_files ReadFile_files)

lemma getStore_untorn:
  assumes "untorn w" and "getStore j d w = (r, w')"
  shows "untorn w'"
proof -
  obtain r1 w1 where c1: "createStoreIfNotExists d w = (r1, w1)" by force
  have u1: "untorn w1" using createStore_untorn[OF assms(1) c1] .
  obtain r2 w2 where c2: "ioutil_ReadFile (storeLocation d) w1 = (r2, w2)" by force
  have u2: "untorn w2" using ReadFile_untorn[OF u1 c2] .
  show ?thesis
    using assms(2) c1 c2 u1 u2
    by (auto simp: getStore_def split: option.splits sum.splits if_splits)
qed

lemma getStore_exists:
  "files w (storeLocation d) = Some old \<Longrightarrow> getStore j d w = (r, w') \<Longrightarrow>
     files w' = files w"
  using getStore_files by force

lemma encrypt_supplied_world:
  assumes "supplies [16, 24] (entropy w)" "kdf_length c" "aead_inverse c"
  shows "\<exists>blob. encrypt c val P w = (Return blob, w\<lparr>entropy := drop 2 (entropy w)\<rparr>)
           \<and> decrypt c blob P = Return val"
proof -
  from assms(1) obtain b1 b2 es where e: "entropy w = (b1, None) # (b2, None) # es"
    and l: "16 \<le> length b1" "24 \<le> length b2"
    by (auto elim!: supplies.elims)
  have k: "length (argon2_Key c P (take 16 b1) 3 (32 * 1024) 4 32) = 32"
    using kdf_lengthD[OF assms(2)] .
  have n1: "makeNonce 16 w = (Return (take 16 b1), w\<lparr>entropy := (b2, None) # es\<rparr>)"
    using e l by (simp add: makeNonce_supplied)
  have n2: "makeNonce 24 (w\<lparr>entropy := (b2, None) # es\<rparr>) = (Return (take 24 b2), w\<lparr>entropy := es\<rparr>)"
    using l by (simp add: makeNonce_supplied)
  have enc: "encrypt c val P w =
      (Return (take 16 b1 @ take 24 b2 @
         aead_Seal c (argon2_Key c P (take 16 b1) 3 (32 * 1024) 4 32) (take 24 b2) val),
       w\<lparr>entropy := drop 2 (entropy w)\<rparr>)"
    using k by (simp add: encrypt_def n1 n2 chacha20poly1305_NewX_def e)
  moreover have "decrypt c (take 16 b1 @ take 24 b2 @
         aead_Seal c (argon2_Key c P (take 16 b1) 3 (32 * 1024) 4 32) (take 24 b2) val) P = Return val"
    using decrypt_of_encrypt[OF assms(3) enc] .
  ultimately show ?thesis by blast
qed

lemma Put_unreadable:
  assumes nf: "faults w = []"
      and ex: "files w (storeLocation d) = Some x" and ne: "x \<noteq> []"
      and bad: "json_Unmarshal j x = Inl e"
      and en: "supplies [16, 24] (entropy w)"
      and kd: "kdf_length c" and ai: "aead_inverse c"
  shows "fst (FileStore_Put c j d key val w) = Fail e"
proof -
  from encrypt_supplied_world[OF en kd ai] obtain blob where
    enc: "encrypt c val (cryptoKey d) w = (Return blob, w\<lparr>entropy := drop 2 (entropy w)\<rparr>)"
    by blast
  have "getStore j d (w\<lparr>entropy := drop 2 (entropy w), now_calls := Suc (now_calls w)\<rparr>)
          = (Fail e, w\<lparr>entropy := drop 2 (entropy w), now_calls := Suc (now_calls w)\<rparr>)"
    using getStore_present[of "w\<lparr>entropy := drop 2 (entropy w), now_calls := Suc (now_calls w)\<rparr>" d x j]
      nf ex ne bad
    by simp
  then show ?thesis
    by (simp add: FileStore_Put_def createStore_present[OF nf ex] enc Let_def time_Now_def)
qed

text \<open>
  Claim C10. When the store file exists and \<open>Put\<close> does not return success, either the
  files are as they were before the call, or encryption, loading the store and
  marshalling had all succeeded and it is the final write that failed. So a \<open>Put\<close>
  that fails because encryption, loading or marshalling failed (or that panics for want
  of random bytes) leaves the store file unchanged: the file is written in the last
  step only.
\<close>

theorem Put_failure_keeps_file:
  assumes "files w (storeLocation d) = Some old"
      and "FileStore_Put c j d key val w = (out, w')"
      and "out \<noteq> Return ()"
  shows "files w' = files w
       \<or> (\<exists>w1 blob w2 xs w3 k data e.
             createStoreIfNotExists d w = (None, w1)
           \<and> encrypt c val (cryptoKey d) w1 = (Return blob, w2)
           \<and> getStore j d (snd (time_Now w2)) = (Return xs, w3)
           \<and> json_Marshal j (xs @ [\<lparr>Value = blob, KeyInfo = k\<rparr>]) = Inr data
           \<and> ioutil_WriteFile (storeLocation d) data w3 = (Some e, w')
           \<and> out = Fail e)"
proof -
  obtain r1 w1 where c1: "createStoreIfNotExists d w = (r1, w1)" by force
  have f1: "files w1 = files w" using createStore_exists[OF assms(1) c1] .
  obtain r2 w2 where c2: "encrypt c val (cryptoKey d) w1 = (r2, w2)" by force
  have f2: "files w2 = files w" using encrypt_files[OF c2] f1 by simp
  obtain t w2' where tn: "time_Now w2 = (t, w2')" by force
  have f2': "files w2' = files w" using time_Now_same[of w2] tn f2 by simp
  obtain r3 w3 where c3: "getStore j d w2' = (r3, w3)" by force
  have f3: "files w3 = files w" using getStore_exists[OF _ c3] f2' assms(1) by simp
  show ?thesis
  proof (cases r1)
    case (Some e)
    then show ?thesis using assms(2) c1 f1 by (simp add: FileStore_Put_def)
  next
    case None
    note r1 = None
    show ?thesis
    proof (cases r2)
      case (Return blob)
      note r2 = Return
      show ?thesis
      proof (cases r3)
        case (Return xs)
        let ?k = "\<lparr>Name = key, CreatedAt = t,
                   Owner = (case os_user w2 of None \<Rightarrow> [] | Some name \<Rightarrow> name), Info = []\<rparr>"
        let ?e = "\<lparr>Value = blob, KeyInfo = ?k\<rparr>"
        have st: "(if xs \<noteq> [] then [] @ xs else []) @ [?e] = xs @ [?e]" by simp
        show ?thesis
        proof (cases "json_Marshal j (xs @ [?e])")
          case (Inl err)
          then have "w' = w3"
            using assms(2) c1 r1 c2 r2 tn c3 Return st by (simp add: FileStore_Put_def Let_def)
          then show ?thesis using f3 by simp
        next
          case (Inr data)
          obtain r4 w4 where wr: "ioutil_WriteFile (storeLocation d) data w3 = (r4, w4)" by force
          have p: "(out, w') = (case r4 of Some err \<Rightarrow> (Fail err, w4) | None \<Rightarrow> (Return (), w4))"
            using assms(2) c1 r1 c2 r2 tn c3 Return Inr st wr
            by (simp add: FileStore_Put_def Let_def)
          with assms(3) obtain e where r4: "r4 = Some e" and o: "out = Fail e" "w' = w4"
            by (cases r4) auto
          have "getStore j d (snd (time_Now w2)) = (Return xs, w3)"
            using c3 tn Return by simp
          then show ?thesis
            using c1 r1 c2 r2 Inr wr r4 o by blast
        qed
      next
        case (Fail e)
        then have "w' = w3"
          using assms(2) c1 r1 c2 r2 tn c3 by (simp add: FileStore_Put_def Let_def)
        then show ?thesis using f3 by simp
      next
        case Panicked
        then have "w' = w3"
          using assms(2) c1 r1 c2 r2 tn c3 by (simp add: FileStore_Put_def Let_def)
        then show ?thesis using f3 by simp
      qed
    next
      case (Fail e)
      then show ?thesis using assms(2) c1 r1 c2 f2 by (simp add: FileStore_Put_def)
    next
      case Panicked
      then show ?thesis using assms(2) c1 r1 c2 f2 by (simp add: FileStore_Put_def)
    qed
  qed
qed

theorem Put_failure_keeps_file_witness:
  "files damaged_world (storeLocation demo_store) = Some ''not a store''
   \<and> fst (FileStore_Put demo_crypto demo_codec demo_store ''db-pass'' ''s3cr3t'' damaged_world)
       = Fail (JSONError ''invalid document'')
   \<and> files (snd (FileStore_Put demo_crypto demo_codec demo_store ''db-pass'' ''s3cr3t''
                    damaged_world))
       = files damaged_world"
proof -
  have ex: "files damaged_world (storeLocation demo_store) = Some ''not a store''"
    by (simp add: damaged_world_def)
  have bad: "json_Unmarshal demo_codec ''not a store'' = Inl (JSONError ''invalid document'')"
    by (simp add: demo_codec_def demo_Unmarshal_def dec_list_no_marker)
  have out: "fst (FileStore_Put demo_crypto demo_codec demo_store ''db-pass'' ''s3cr3t''
                    damaged_world) = Fail (JSONError ''invalid document'')"
    by (rule Put_unreadable[OF _ ex _ bad _ demo_kdf_length demo_aead_inverse])
       (simp_all add: damaged_world_def demo_world_def)
  have "files (snd (FileStore_Put demo_crypto demo_codec demo_store ''db-pass'' ''s3cr3t''
                      damaged_world)) = files damaged_world"
    using Put_failure_keeps_file[OF ex, of demo_crypto demo_codec "''db-pass''" "''s3cr3t''"
        "Fail (JSONError ''invalid document'')"
        "snd (FileStore_Put demo_crypto demo_codec demo_store ''db-pass'' ''s3cr3t''
                damaged_world)"]
      out WriteFile_error
    by (fastforce simp: prod_eq_iff)
  then show ?thesis using ex out by simp
qed

section \<open>Put appends\<close>

lemma Put_absent:
  "faults w = [] \<Longrightarrow> files w (storeLocation d) = None \<Longrightarrow>
     FileStore_Put c j d key val w =
     FileStore_Put c j d key val (w\<lparr>files := (files w)(storeLocation d \<mapsto> [])\<rparr>)"
  by (simp add: FileStore_Put_def createStore_absent createStore_present[where x = "[]"])

lemma Put_present:
  assumes nf: "faults w = []"
      and ex: "files w (storeLocation d) = Some x"
      and ld: "fst (getStore j d w) = Return xs"
      and en: "supplies [16, 24] (entropy w)"
      and kd: "kdf_length c" and ai: "aead_inverse c"
      and k: "k = \<lparr>Name = key, CreatedAt = clock w (now_calls w),
                   Owner = (case os_user w of None \<Rightarrow> [] | Some name \<Rightarrow> name), Info = []\<rparr>"
      and rb: "\<forall>blob. json_reads_back j (xs @ [\<lparr>Value = blob, KeyInfo = k\<rparr>])"
  shows "\<exists>blob doc.
           FileStore_Put c j d key val w =
             (Return (), w\<lparr>entropy := drop 2 (entropy w), now_calls := now_calls w + 1,
                            files := (files w)(storeLocation d \<mapsto> doc)\<rparr>)
         \<and> doc \<noteq> [] \<and> json_Unmarshal j doc = Inr (xs @ [\<lparr>Value = blob, KeyInfo = k\<rparr>])
         \<and> decrypt c blob (cryptoKey d) = Return val"
proof -
  from encrypt_supplied_world[OF en kd ai] obtain blob where
    enc: "encrypt c val (cryptoKey d) w = (Return blob, w\<lparr>entropy := drop 2 (entropy w)\<rparr>)"
    and dec: "decrypt c blob (cryptoKey d) = Return val"
    by blast
  let ?w2 = "w\<lparr>entropy := drop 2 (entropy w), now_calls := now_calls w + 1\<rparr>"
  have g0: "getStore j d w = (Return xs, w)"
    using ld getStore_present[OF nf ex, of j] by (simp split: if_splits sum.splits)
  have g2: "getStore j d ?w2 = (Return xs, ?w2)"
    using g0 getStore_present[OF nf ex, of j] getStore_present[of ?w2 d x j] nf ex
    by simp
  have g2': "getStore j d (w\<lparr>entropy := drop 2 (entropy w), now_calls := Suc (now_calls w)\<rparr>)
               = (Return xs, w\<lparr>entropy := drop 2 (entropy w), now_calls := Suc (now_calls w)\<rparr>)"
    using g2 by simp
  from rb obtain doc where doc: "doc \<noteq> []"
    "json_Marshal j (xs @ [\<lparr>Value = blob, KeyInfo = k\<rparr>]) = Inr doc"
    "json_Unmarshal j doc = Inr (xs @ [\<lparr>Value = blob, KeyInfo = k\<rparr>])"
    unfolding json_reads_back_def by blast
  have "FileStore_Put c j d key val w =
          (Return (), ?w2\<lparr>files := (files ?w2)(storeLocation d \<mapsto> doc)\<rparr>)"
    using doc(2) nf
    by (auto simp: FileStore_Put_def createStore_present[OF nf ex] enc g2' k Let_def
        time_Now_def ioutil_WriteFile_def next_fault_none)
  then show ?thesis using doc dec by auto
qed

lemma supplies_four:
  "supplies [16, 24, 16, 24] es \<Longrightarrow> supplies [16, 24] es \<and> supplies [16, 24] (drop 2 es)"
  by (auto elim!: supplies.elims)

lemma Get_scan_append_hit:
  "\<exists>e\<in>set xs. Name (KeyInfo e) = key \<Longrightarrow> Get_scan c d key (xs @ ys) = Get_scan c d key xs"
  by (induction xs) auto

lemma Put_twice:
  assumes kd: "kdf_length c" and ai: "aead_inverse c"
      and nf: "faults w = []"
      and en: "supplies [16, 24, 16, 24] (entropy w)"
      and ld: "fst (getStore j d w) = Return xs"
      and k1: "k1 = \<lparr>Name = key, CreatedAt = clock w (now_calls w),
                     Owner = (case os_user w of None \<Rightarrow> [] | Some name \<Rightarrow> name), Info = []\<rparr>"
      and k2: "k2 = \<lparr>Name = key, CreatedAt = clock w (now_calls w + 1),
                     Owner = (case os_user w of None \<Rightarrow> [] | Some name \<Rightarrow> name), Info = []\<rparr>"
      and rb: "\<forall>b1 b2. json_reads_back j (xs @ [\<lparr>Value = b1, KeyInfo = k1\<rparr>])
                     \<and> json_reads_back j (xs @ [\<lparr>Value = b1, KeyInfo = k1\<rparr>, \<lparr>Value = b2, KeyInfo = k2\<rparr>])"
  shows "\<exists>w1 w2 b1 b2.
           FileStore_Put c j d key v1 w = (Return (), w1)
         \<and> FileStore_Put c j d key v2 w1 = (Return (), w2)
         \<and> fst (getStore j d w2) =
               Return (xs @ [\<lparr>Value = b1, KeyInfo = k1\<rparr>, \<lparr>Value = b2, KeyInfo = k2\<rparr>])
         \<and> fst (FileStore_List j d w2) = Return (map KeyInfo xs @ [k1, k2])
         \<and> ((\<forall>e\<in>set xs. Name (KeyInfo e) \<noteq> key) \<longrightarrow>
                fst (FileStore_Get c j d key w2) = Return v1)
         \<and> ((\<exists>e\<in>set xs. Name (KeyInfo e) = key) \<longrightarrow>
                fst (FileStore_Get c j d key w2) = fst (FileStore_Get c j d key w))"
proof -
  define loc where "loc = storeLocation d"
  define w0 where "w0 = (if files w loc = None then w\<lparr>files := (files w)(loc \<mapsto> [])\<rparr> else w)"
  have p0: "FileStore_Put c j d key v1 w = FileStore_Put c j d key v1 w0"
    using Put_absent[OF nf, of d c j key v1] by (simp add: w0_def loc_def)
  have nf0: "faults w0 = []" and en0: "entropy w0 = entropy w"
    and ck0: "clock w0 = clock w" "now_calls w0 = now_calls w" and us0: "os_user w0 = os_user w"
    using nf by (simp_all add: w0_def)
  obtain x where ex0: "files w0 (storeLocation d) = Some x"
    by (cases "files w loc") (auto simp: w0_def loc_def)
  have ld0: "fst (getStore j d w0) = Return xs"
  proof (cases "files w loc")
    case None
    then have "xs = []"
      using ld getStore_absent[OF nf, of d j] by (simp add: loc_def)
    moreover have "getStore j d w0 = (Return [], w0)"
      using None getStore_present[of w0 d "[]" j] nf by (simp add: w0_def loc_def)
    ultimately show ?thesis by simp
  next
    case (Some a)
    then show ?thesis using ld by (simp add: w0_def)
  qed
  have k10: "k1 = \<lparr>Name = key, CreatedAt = clock w0 (now_calls w0),
                  Owner = (case os_user w0 of None \<Rightarrow> [] | Some name \<Rightarrow> name), Info = []\<rparr>"
    using k1 ck0 us0 by simp
  have s1: "supplies [16, 24] (entropy w0)" and s2: "supplies [16, 24] (drop 2 (entropy w0))"
    using supplies_four[OF en] en0 by simp_all
  have rb1: "\<forall>blob. json_reads_back j (xs @ [\<lparr>Value = blob, KeyInfo = k1\<rparr>])"
    using rb by blast
  from Put_present[OF nf0 ex0 ld0 s1 kd ai k10 rb1, of v1] obtain b1 doc1 where
    put1: "FileStore_Put c j d key v1 w0 =
             (Return (), w0\<lparr>entropy := drop 2 (entropy w0), now_calls := now_calls w0 + 1,
                            files := (files w0)(storeLocation d \<mapsto> doc1)\<rparr>)"
    and d1: "doc1 \<noteq> []" "json_Unmarshal j doc1 = Inr (xs @ [\<lparr>Value = b1, KeyInfo = k1\<rparr>])"
    and dec1: "decrypt c b1 (cryptoKey d) = Return v1"
    by blast
  define w1 where "w1 = w0\<lparr>entropy := drop 2 (entropy w0), now_calls := now_calls w0 + 1,
                            files := (files w0)(storeLocation d \<mapsto> doc1)\<rparr>"
  have nf1: "faults w1 = []" and ex1: "files w1 (storeLocation d) = Some doc1"
    and en1: "entropy w1 = drop 2 (entropy w0)"
    and ck1: "clock w1 = clock w0" "now_calls w1 = now_calls w0 + 1"
    and us1: "os_user w1 = os_user w0"
    using nf0 by (simp_all add: w1_def)
  have ld1: "fst (getStore j d w1) = Return (xs @ [\<lparr>Value = b1, KeyInfo = k1\<rparr>])"
    using getStore_present[OF nf1 ex1, of j] d1 by simp
  have k21: "k2 = \<lparr>Name = key, CreatedAt = clock w1 (now_calls w1),
                  Owner = (case os_user w1 of None \<Rightarrow> [] | Some name \<Rightarrow> name), Info = []\<rparr>"
    using k2 ck0 ck1 us0 us1 by simp
  have s21: "supplies [16, 24] (entropy w1)"
    using s2 en1 by simp
  have rb2: "\<forall>blob. json_reads_back j ((xs @ [\<lparr>Value = b1, KeyInfo = k1\<rparr>]) @ [\<lparr>Value = blob, KeyInfo = k2\<rparr>])"
    using rb by simp
  from Put_present[OF nf1 ex1 ld1 s21 kd ai k21 rb2, of v2] obtain b2 doc2 where
    put2: "FileStore_Put c j d key v2 w1 =
             (Return (), w1\<lparr>entropy := drop 2 (entropy w1), now_calls := now_calls w1 + 1,
                            files := (files w1)(storeLocation d \<mapsto> doc2)\<rparr>)"
    and d2: "doc2 \<noteq> []"
      "json_Unmarshal j doc2 = Inr ((xs @ [\<lparr>Value = b1, KeyInfo = k1\<rparr>]) @ [\<lparr>Value = b2, KeyInfo = k2\<rparr>])"
    by blast
  define w2 where "w2 = w1\<lparr>entropy := drop 2 (entropy w1), now_calls := now_calls w1 + 1,
                            files := (files w1)(storeLocation d \<mapsto> doc2)\<rparr>"
  have nf2: "faults w2 = []" and ex2: "files w2 (storeLocation d) = Some doc2"
    using nf1 by (simp_all add: w2_def)
  have g2: "getStore j d w2 =
              (Return (xs @ [\<lparr>Value = b1, KeyInfo = k1\<rparr>, \<lparr>Value = b2, KeyInfo = k2\<rparr>]), w2)"
    using getStore_present[OF nf2 ex2, of j] d2 by simp
  have nk: "Name k1 = key" using k1 by simp
  have get: "fst (FileStore_Get c j d key w2) = Return v1"
    if "\<forall>e\<in>set xs. Name (KeyInfo e) \<noteq> key"
    using that dec1 nk by (simp add: FileStore_Get_def g2 Get_scan_append_miss)
  obtain wl where g: "getStore j d w = (Return xs, wl)"
    using ld by (cases "getStore j d w") simp
  have old: "fst (FileStore_Get c j d key w2) = fst (FileStore_Get c j d key w)"
    if "\<exists>e\<in>set xs. Name (KeyInfo e) = key"
    using Get_scan_append_hit[OF that, of c d]
    by (simp add: FileStore_Get_def g2 g)
  have lst: "fst (FileStore_List j d w2) = Return (map KeyInfo xs @ [k1, k2])"
    by (simp add: FileStore_List_def g2 List_collect_map)
  have a: "FileStore_Put c j d key v1 w = (Return (), w1)"
    using p0 put1 by (simp add: w1_def)
  have b: "FileStore_Put c j d key v2 w1 = (Return (), w2)"
    using put2 by (simp add: w2_def)
  have c: "fst (getStore j d w2) =
             Return (xs @ [\<lparr>Value = b1, KeyInfo = k1\<rparr>, \<lparr>Value = b2, KeyInfo = k2\<rparr>])"
    using g2 by simp
  show ?thesis
    using a b c lst get old by blast
qed

lemma demo_world_facts:
  "faults demo_world = []" "supplies [16, 24, 16, 24] (entropy demo_world)"
  "files demo_world (storeLocation demo_store) = None"
  "clock demo_world (now_calls demo_world) = 1700000000"
  "clock demo_world (now_calls demo_world + 1) = 1700000001"
  "os_user demo_world = Some ''alice''"
  by (simp_all add: demo_world_def)

lemma stored_world_facts:
  "faults (stored_world ys) = []" "supplies [16, 24, 16, 24] (entropy (stored_world ys))"
  "clock (stored_world ys) (now_calls (stored_world ys)) = 1700000000"
  "clock (stored_world ys) (now_calls (stored_world ys) + 1) = 1700000001"
  "os_user (stored_world ys) = Some ''alice''"
  by (simp_all add: stored_world_def demo_world_def)

lemma demo_reads_back_two:
  "\<forall>b1 b2. json_reads_back demo_codec (xs @ [\<lparr>Value = b1, KeyInfo = k1\<rparr>])
          \<and> json_reads_back demo_codec (xs @ [\<lparr>Value = b1, KeyInfo = k1\<rparr>, \<lparr>Value = b2, KeyInfo = k2\<rparr>])"
  by (simp add: demo_reads_back)

lemma crowded_two_puts:
  "fst (demo_Put ''s3cr3t'' crowded_world) = Return ()
   \<and> fst (demo_Put ''other'' (snd (demo_Put ''s3cr3t'' crowded_world))) = Return ()
   \<and> fst (FileStore_Get demo_crypto demo_codec demo_store ''db-pass''
            (snd (demo_Put ''other'' (snd (demo_Put ''s3cr3t'' crowded_world)))))
       = Return ''old''
   \<and> fst (FileStore_List demo_codec demo_store
            (snd (demo_Put ''other'' (snd (demo_Put ''s3cr3t'' crowded_world)))))
       = Return [\<lparr>Name = ''db-pass'', CreatedAt = 0, Owner = ''alice'', Info = []\<rparr>,
                 \<lparr>Name = ''db-pass'', CreatedAt = 1700000000, Owner = ''alice'', Info = []\<rparr>,
                 \<lparr>Name = ''db-pass'', CreatedAt = 1700000001, Owner = ''alice'', Info = []\<rparr>]"
proof -
  let ?xs = "[demo_entry ''db-pass'' ''old'']"
  let ?k1 = "\<lparr>Name = ''db-pass'', CreatedAt = clock crowded_world (now_calls crowded_world),
              Owner = (case os_user crowded_world of None \<Rightarrow> [] | Some name \<Rightarrow> name),
              Info = []\<rparr>"
  let ?k2 = "\<lparr>Name = ''db-pass'', CreatedAt = clock crowded_world (now_calls crowded_world + 1),
              Owner = (case os_user crowded_world of None \<Rightarrow> [] | Some name \<Rightarrow> name),
              Info = []\<rparr>"
  have ld: "fst (getStore demo_codec demo_store crowded_world) = Return ?xs"
    using stored_world_load[of "''hunter2''" "demo_entry ''db-pass'' ''old''" "[]"]
    by (simp add: demo_store_def crowded_world_def)
  have g0: "fst (FileStore_Get demo_crypto demo_codec demo_store ''db-pass'' crowded_world)
              = Return ''old''"
    using stored_world_load[of "''hunter2''" "demo_entry ''db-pass'' ''old''" "[]"]
    by (simp add: FileStore_Get_def crowded_world_def demo_store_def demo_entry_def
        demo_blob_decrypt)
  have hit: "\<exists>e\<in>set ?xs. Name (KeyInfo e) = ''db-pass''"
    by (simp add: demo_entry_def)
  have cf: "faults crowded_world = []" "supplies [16, 24, 16, 24] (entropy crowded_world)"
    using stored_world_facts[of ?xs] by (simp_all add: crowded_world_def)
  from Put_twice[OF demo_kdf_length demo_aead_inverse cf ld refl refl demo_reads_back_two,
      of "''db-pass''" "''s3cr3t''" "''other''"] hit
  obtain w1 w2 where
    a: "demo_Put ''s3cr3t'' crowded_world = (Return (), w1)"
    and b: "demo_Put ''other'' w1 = (Return (), w2)"
    and l: "fst (FileStore_List demo_codec demo_store w2) = Return (map KeyInfo ?xs @ [?k1, ?k2])"
    and g: "fst (FileStore_Get demo_crypto demo_codec demo_store ''db-pass'' w2)
              = fst (FileStore_Get demo_crypto demo_codec demo_store ''db-pass'' crowded_world)"
    unfolding demo_Put_def by blast
  have l': "fst (FileStore_List demo_codec demo_store w2) =
      Return [\<lparr>Name = ''db-pass'', CreatedAt = 0, Owner = ''alice'', Info = []\<rparr>,
              \<lparr>Name = ''db-pass'', CreatedAt = 1700000000, Owner = ''alice'', Info = []\<rparr>,
              \<lparr>Name = ''db-pass'', CreatedAt = 1700000001, Owner = ''alice'', Info = []\<rparr>]"
    using l stored_world_facts[of ?xs] by (simp add: crowded_world_def demo_entry_def)
  show ?thesis
    by (simp add: a b l' g g0)
qed

text \<open>
  Claim C5. \<open>Put\<close> appends its record to the sequence loaded from the file, whatever
  names that sequence has. With no file system fault and enough random bytes, two
  \<open>Put\<close>s of values \<open>v1\<close> and \<open>v2\<close> under one name both succeed and leave the loaded
  sequence \<open>xs\<close> followed by two records of that name, each with the time of its own
  \<open>Put\<close>, and \<open>List\<close> ends with their two keys. When \<open>xs\<close> held no record of the name,
  \<open>Get\<close> of the name then returns \<open>v1\<close>; when it held one, \<open>Get\<close> returns what it
  returned before the two \<open>Put\<close>s.
\<close>

theorem Put_twice_Get_first:
  assumes "kdf_length c" and "aead_inverse c"
      and "faults w = []"
      and "supplies [16, 24, 16, 24] (entropy w)"
      and "fst (getStore j d w) = Return xs"
      and "k1 = \<lparr>Name = key, CreatedAt = clock w (now_calls w),
                 Owner = (case os_user w of None \<Rightarrow> [] | Some name \<Rightarrow> name), Info = []\<rparr>"
      and "k2 = \<lparr>Name = key, CreatedAt = clock w (now_calls w + 1),
                 Owner = (case os_user w of None \<Rightarrow> [] | Some name \<Rightarrow> name), Info = []\<rparr>"
      and "\<forall>b1 b2. json_reads_back j (xs @ [\<lparr>Value = b1, KeyInfo = k1\<rparr>])
                 \<and> json_reads_back j (xs @ [\<lparr>Value = b1, KeyInfo = k1\<rparr>, \<lparr>Value = b2, KeyInfo = k2\<rparr>])"
  shows "\<exists>w1 w2 b1 b2.
           FileStore_Put c j d key v1 w = (Return (), w1)
         \<and> FileStore_Put c j d key v2 w1 = (Return (), w2)
         \<and> fst (getStore j d w2) =
               Return (xs @ [\<lparr>Value = b1, KeyInfo = k1\<rparr>, \<lparr>Value = b2, KeyInfo = k2\<rparr>])
         \<and> fst (FileStore_List j d w2) = Return (map KeyInfo xs @ [k1, k2])
         \<and> ((\<forall>e\<in>set xs. Name (KeyInfo e) \<noteq> key) \<longrightarrow>
                fst (FileStore_Get c j d key w2) = Return v1)
         \<and> ((\<exists>e\<in>set xs. Name (KeyInfo e) = key) \<longrightarrow>
                fst (FileStore_Get c j d key w2) = fst (FileStore_Get c j d key w))"
  using assms by (rule Put_twice)

theorem Put_twice_Get_first_witness:
  "kdf_length demo_crypto \<and> aead_inverse demo_crypto \<and> faults demo_world = []
   \<and> supplies [16, 24, 16, 24] (entropy demo_world)
   \<and> fst (getStore demo_codec demo_store demo_world) = Return []
   \<and> (\<exists>w1 w2 b1 b2.
         FileStore_Put demo_crypto demo_codec demo_store ''db-pass'' ''s3cr3t'' demo_world
           = (Return (), w1)
       \<and> FileStore_Put demo_crypto demo_codec demo_store ''db-pass'' ''other'' w1
           = (Return (), w2)
       \<and> fst (getStore demo_codec demo_store w2) =
            Return [\<lparr>Value = b1, KeyInfo = \<lparr>Name = ''db-pass'', CreatedAt = 1700000000,
                                            Owner = ''alice'', Info = []\<rparr>\<rparr>,
                    \<lparr>Value = b2, KeyInfo = \<lparr>Name = ''db-pass'', CreatedAt = 1700000001,
                                            Owner = ''alice'', Info = []\<rparr>\<rparr>]
       \<and> fst (FileStore_List demo_codec demo_store w2) =
            Return [\<lparr>Name = ''db-pass'', CreatedAt = 1700000000, Owner = ''alice'', Info = []\<rparr>,
                    \<lparr>Name = ''db-pass'', CreatedAt = 1700000001, Owner = ''alice'', Info = []\<rparr>]
       \<and> fst (FileStore_Get demo_crypto demo_codec demo_store ''db-pass'' w2) = Return ''s3cr3t'')
   \<and> fst (getStore demo_codec demo_store crowded_world) = Return [demo_entry ''db-pass'' ''old'']
   \<and> (\<exists>w1 w2.
         FileStore_Put demo_crypto demo_codec demo_store ''db-pass'' ''s3cr3t'' crowded_world
           = (Return (), w1)
       \<and> FileStore_Put demo_crypto demo_codec demo_store ''db-pass'' ''other'' w1
           = (Return (), w2)
       \<and> fst (FileStore_Get demo_crypto demo_codec demo_store ''db-pass'' w2)
           = fst (FileStore_Get demo_crypto demo_codec demo_store ''db-pass'' crowded_world))"
proof -
  have ld: "fst (getStore demo_codec demo_store demo_world) = Return []"
    by (simp add: getStore_absent[OF demo_world_facts(1) demo_world_facts(3)])
  from Put_twice_Get_first[OF demo_kdf_length demo_aead_inverse demo_world_facts(1,2) ld
      refl refl demo_reads_back_two, of "''db-pass''" "''s3cr3t''" "''other''"]
  have a: "\<exists>w1 w2 b1 b2.
         FileStore_Put demo_crypto demo_codec demo_store ''db-pass'' ''s3cr3t'' demo_world
           = (Return (), w1)
       \<and> FileStore_Put demo_crypto demo_codec demo_store ''db-pass'' ''other'' w1
           = (Return (), w2)
       \<and> fst (getStore demo_codec demo_store w2) =
            Return [\<lparr>Value = b1, KeyInfo = \<lparr>Name = ''db-pass'', CreatedAt = 1700000000,
                                            Owner = ''alice'', Info = []\<rparr>\<rparr>,
                    \<lparr>Value = b2, KeyInfo = \<lparr>Name = ''db-pass'', CreatedAt = 1700000001,
                                            Owner = ''alice'', Info = []\<rparr>\<rparr>]
       \<and> fst (FileStore_List demo_codec demo_store w2) =
            Return [\<lparr>Name = ''db-pass'', CreatedAt = 1700000000, Owner = ''alice'', Info = []\<rparr>,
                    \<lparr>Name = ''db-pass'', CreatedAt = 1700000001, Owner = ''alice'', Info = []\<rparr>]
       \<and> fst (FileStore_Get demo_crypto demo_codec demo_store ''db-pass'' w2) = Return ''s3cr3t''"
    using demo_world_facts by simp
  let ?xs = "[demo_entry ''db-pass'' ''old'']"
  have ld2: "fst (getStore demo_codec demo_store crowded_world) = Return ?xs"
    using stored_world_load[of "''hunter2''" "demo_entry ''db-pass'' ''old''" "[]"]
    by (simp add: demo_store_def crowded_world_def)
  have hit: "\<exists>e\<in>set ?xs. Name (KeyInfo e) = ''db-pass''"
    by (simp add: demo_entry_def)
  have cf: "faults crowded_world = []" "supplies [16, 24, 16, 24] (entropy crowded_world)"
    using stored_world_facts[of ?xs] by (simp_all add: crowded_world_def)
  from Put_twice_Get_first[OF demo_kdf_length demo_aead_inverse cf ld2
      refl refl demo_reads_back_two, of "''db-pass''" "''s3cr3t''" "''other''"] hit
  have b: "\<exists>w1 w2.
         FileStore_Put demo_crypto demo_codec demo_store ''db-pass'' ''s3cr3t'' crowded_world
           = (Return (), w1)
       \<and> FileStore_Put demo_crypto demo_codec demo_store ''db-pass'' ''other'' w1
           = (Return (), w2)
       \<and> fst (FileStore_Get demo_crypto demo_codec demo_store ''db-pass'' w2)
           = fst (FileStore_Get demo_crypto demo_codec demo_store ''db-pass'' crowded_world)"
    by blast
  show ?thesis
    using demo_kdf_length demo_aead_inverse demo_world_facts(1,2) ld a ld2 b by blast
qed

text \<open>
  On a store that already holds a record of the name, with value \<^verbatim>\<open>old\<close>, \<open>Get\<close> after
  the two \<open>Put\<close>s returns \<^verbatim>\<open>old\<close> and not the value of the first of them, and \<open>List\<close>
  shows three keys of that name.
\<close>

theorem Put_twice_Get_first_counterexample:
  "fst (demo_Put ''s3cr3t'' crowded_world) = Return ()
   \<and> fst (demo_Put ''other'' (snd (demo_Put ''s3cr3t'' crowded_world))) = Return ()
   \<and> fst (FileStore_Get demo_crypto demo_codec demo_store ''db-pass''
            (snd (demo_Put ''other'' (snd (demo_Put ''s3cr3t'' crowded_world)))))
       = Return ''old''
   \<and> Return ''old'' \<noteq> (Return ''s3cr3t'' :: bytes outcome)
   \<and> fst (FileStore_List demo_codec demo_store
            (snd (demo_Put ''other'' (snd (demo_Put ''s3cr3t'' crowded_world)))))
       = Return [\<lparr>Name = ''db-pass'', CreatedAt = 0, Owner = ''alice'', Info = []\<rparr>,
                 \<lparr>Name = ''db-pass'', CreatedAt = 1700000000, Owner = ''alice'', Info = []\<rparr>,
                 \<lparr>Name = ''db-pass'', CreatedAt = 1700000001, Owner = ''alice'', Info = []\<rparr>]"
  using crowded_two_puts by simp

section \<open>The representation of the empty store\<close>

lemma createStore_ok:
  assumes "store_file_ok j (storeLocation d) w"
  shows "store_file_ok j (storeLocation d) (snd (createStoreIfNotExists d w))"
proof -
  obtain r w' where c: "createStoreIfNotExists d w = (r, w')" by force
  from createStore_files[OF c] show ?thesis
    using assms c by (auto simp: store_file_ok_def)
qed

lemma getStore_ok:
  assumes "store_file_ok j (storeLocation d) w"
  shows "store_file_ok j (storeLocation d) (snd (getStore j d w))"
proof -
  obtain r w' where c: "getStore j d w = (r, w')" by force
  from getStore_files[OF c] show ?thesis
    using assms c by (auto simp: store_file_ok_def)
qed

lemma Get_ok:
  "store_file_ok j (storeLocation d) w \<Longrightarrow>
     store_file_ok j (storeLocation d) (snd (FileStore_Get c j d key w))"
  using getStore_ok[of j d w]
  by (auto simp: FileStore_Get_def split: prod.splits outcome.splits)

lemma List_ok:
  "store_file_ok j (storeLocation d) w \<Longrightarrow>
     store_file_ok j (storeLocation d) (snd (FileStore_List j d w))"
  using getStore_ok[of j d w]
  by (auto simp: FileStore_List_def split: prod.splits outcome.splits)

lemma CheckExists_ok:
  "store_file_ok j (storeLocation d) w \<Longrightarrow>
     store_file_ok j (storeLocation d) (snd (FileStore_CheckExists j d key w))"
  using getStore_ok[of j d w]
  by (auto simp: FileStore_CheckExists_def split: prod.splits outcome.splits)

lemma WriteFile_ok:
  assumes "store_file_ok j p w" and "untorn w"
      and "data = [] \<or> (\<exists>ys. ys \<noteq> [] \<and> json_Marshal j ys = Inr data)"
  shows "store_file_ok j p (snd (ioutil_WriteFile p data w))"
proof -
  obtain r w' where c: "ioutil_WriteFile p data w = (r, w')" by force
  from WriteFile_untorn_files[OF assms(2) c] show ?thesis
    using assms(1,3) c by (auto simp: store_file_ok_def)
qed

lemma encrypt_ok:
  assumes "store_file_ok j p w"
  shows "store_file_ok j p (snd (encrypt c v P w))"
proof -
  obtain r w' where c: "encrypt c v P w = (r, w')" by force
  from encrypt_files[OF c] show ?thesis
    using assms c by (simp add: store_file_ok_def)
qed

lemma Delete_ok:
  assumes "store_file_ok j (storeLocation d) w" and "untorn w"
  shows "store_file_ok j (storeLocation d) (snd (FileStore_Delete j d key w))"
proof -
  obtain r w1 where g: "getStore j d w = (r, w1)" by force
  have ok1: "store_file_ok j (storeLocation d) w1"
    using getStore_ok[OF assms(1)] g by simp
  have u1: "untorn w1" using getStore_untorn[OF assms(2) g] .
  show ?thesis
  proof (cases r)
    case (Return xs)
    let ?new = "Delete_keep key [] xs"
    show ?thesis
    proof (cases "if length ?new > 0 then json_Marshal j ?new else Inr []")
      case (Inl e)
      then show ?thesis using g Return ok1 by (simp add: FileStore_Delete_def Let_def)
    next
      case (Inr data)
      then have "data = [] \<or> (\<exists>ys. ys \<noteq> [] \<and> json_Marshal j ys = Inr data)"
        by (auto split: if_splits)
      from WriteFile_ok[OF ok1 u1 this] show ?thesis
        using g Return Inr
        by (auto simp: FileStore_Delete_def Let_def split: prod.splits option.splits)
    qed
  qed (use g ok1 in \<open>simp_all add: FileStore_Delete_def\<close>)
qed

lemma Put_ok:
  assumes "store_file_ok j (storeLocation d) w" and "untorn w"
  shows "store_file_ok j (storeLocation d) (snd (FileStore_Put c j d key val w))"
proof -
  obtain r1 w1 where c1: "createStoreIfNotExists d w = (r1, w1)" by force
  have ok1: "store_file_ok j (storeLocation d) w1"
    using createStore_ok[OF assms(1)] c1 by simp
  have u1: "untorn w1" using createStore_untorn[OF assms(2) c1] .
  obtain r2 w2 where c2: "encrypt c val (cryptoKey d) w1 = (r2, w2)" by force
  have ok2: "store_file_ok j (storeLocation d) w2"
    using encrypt_ok[OF ok1, of c val "cryptoKey d"] c2 by simp
  have u2: "untorn w2" using encrypt_untorn[OF u1 c2] .
  obtain t w2' where tn: "time_Now w2 = (t, w2')" by force
  have ok2': "store_file_ok j (storeLocation d) w2'"
    using ok2 time_Now_same[of w2] tn by (simp add: store_file_ok_def)
  have u2': "untorn w2'" using time_Now_untorn[OF u2] tn by simp
  obtain r3 w3 where c3: "getStore j d w2' = (r3, w3)" by force
  have ok3: "store_file_ok j (storeLocation d) w3"
    using getStore_ok[OF ok2'] c3 by simp
  have u3: "untorn w3" using getStore_untorn[OF u2' c3] .
  show ?thesis
  proof (cases r1)
    case (Some e)
    then show ?thesis using c1 ok1 by (simp add: FileStore_Put_def)
  next
    case None
    note r1 = None
    show ?thesis
    proof (cases r2)
      case (Return blob)
      note r2 = Return
      show ?thesis
      proof (cases r3)
        case (Return xs)
        let ?e = "\<lparr>Value = blob,
                   KeyInfo = \<lparr>Name = key, CreatedAt = t,
                              Owner = (case os_user w2 of None \<Rightarrow> [] | Some name \<Rightarrow> name),
                              Info = []\<rparr>\<rparr>"
        have st: "(if xs \<noteq> [] then [] @ xs else []) @ [?e] = xs @ [?e]" by simp
        show ?thesis
        proof (cases "json_Marshal j (xs @ [?e])")
          case (Inl err)
          then show ?thesis
            using c1 r1 c2 r2 tn c3 Return ok3 st by (simp add: FileStore_Put_def Let_def)
        next
          case (Inr data)
          have "store_file_ok j (storeLocation d) (snd (ioutil_WriteFile (storeLocation d) data w3))"
            using WriteFile_ok[OF ok3 u3, of data] Inr by blast
          moreover have "snd (FileStore_Put c j d key val w) =
                         snd (ioutil_WriteFile (storeLocation d) data w3)"
            using c1 r1 c2 r2 tn c3 Return Inr st
            by (simp add: FileStore_Put_def Let_def split: prod.splits option.splits)
          ultimately show ?thesis by simp
        qed
      qed (use c1 r1 c2 r2 tn c3 ok3 in \<open>simp_all add: FileStore_Put_def\<close>)
    qed (use c1 r1 c2 ok2 in \<open>simp_all add: FileStore_Put_def\<close>)
  qed
qed

lemma Delete_all_gone:
  assumes "faults w = []"
      and "fst (getStore j d w) = Return xs"
      and "\<forall>e\<in>set xs. Name (KeyInfo e) = key"
  shows "fst (FileStore_Delete j d key w) = Return ()
       \<and> files (snd (FileStore_Delete j d key w)) (storeLocation d) = Some []"
proof -
  have keep: "Delete_keep key [] xs = []"
    using assms(3) by (simp add: Delete_keep_filter)
  obtain w1 where g: "getStore j d w = (Return xs, w1)"
    using assms(2) by (cases "getStore j d w") simp
  have "faults w1 = []"
  proof (cases "files w (storeLocation d)")
    case None
    then show ?thesis using g getStore_absent[OF assms(1) None, of j] assms(1) by auto
  next
    case (Some x)
    then show ?thesis using g getStore_present[OF assms(1) Some, of j] assms(1) by auto
  qed
  then show ?thesis
    by (simp add: FileStore_Delete_def g keep ioutil_WriteFile_def next_fault_none)
qed

lemma Delete_all_gone_text:
  assumes "faults w = []"
      and "fst (getStore j d w) = Return xs"
      and "\<forall>e\<in>set xs. Name (KeyInfo e) = key"
  shows "files (snd (FileStore_Delete j d key w)) (storeLocation d) \<noteq> Some ''null''
       \<and> files (snd (FileStore_Delete j d key w)) (storeLocation d) \<noteq> Some ''[]''"
  using Delete_all_gone[OF assms] by simp

lemma fresh_store:
  assumes "files w (storeLocation d) = None" and "faults w = []"
  shows "fst (createStoreIfNotExists d w) = None
       \<and> files (snd (createStoreIfNotExists d w)) (storeLocation d) = Some []
       \<and> fst (FileStore_List j d w) = Return []
       \<and> files (snd (FileStore_List j d w)) (storeLocation d) = Some []"
  using assms
  by (simp add: createStore_absent FileStore_List_def getStore_absent)

lemma length_enc_str: "1 \<le> length (enc_str s)"
  by (simp add: enc_str_def)

lemma length_enc_list_ne: "ys \<noteq> [] \<Longrightarrow> 2 \<le> length (enc_list ys)"
proof (cases ys)
  case (Cons e es)
  have "1 \<le> length (enc_entry e)"
    using length_enc_str[of "Value e"] by (simp add: enc_entry_def)
  then show ?thesis using Cons by simp
qed simp

lemma Put_torn:
  "\<exists>w'. FileStore_Put demo_crypto demo_codec demo_store ''db-pass'' ''s3cr3t'' torn_world
           = (Fail (PathError 28), w')
      \<and> files w' (storeLocation demo_store) = Some ''#''"
proof -
  define w1 where "w1 = torn_world\<lparr>faults := [None, None, Some (Fault 28 (Some 1))]\<rparr>"
  have c1: "createStoreIfNotExists demo_store torn_world = (None, w1)"
    by (simp add: createStoreIfNotExists_def os_Stat_def next_fault_def torn_world_def w1_def)
  have "supplies [16, 24] (entropy w1)"
    by (simp add: w1_def torn_world_def demo_world_def)
  from encrypt_supplied_world[OF this demo_kdf_length demo_aead_inverse,
      of "''s3cr3t''" "cryptoKey demo_store"]
  obtain blob where
    enc: "encrypt demo_crypto ''s3cr3t'' (cryptoKey demo_store) w1
            = (Return blob, w1\<lparr>entropy := drop 2 (entropy w1)\<rparr>)"
    by blast
  define w2 where "w2 = snd (time_Now (w1\<lparr>entropy := drop 2 (entropy w1)\<rparr>))"
  define t where "t = fst (time_Now (w1\<lparr>entropy := drop 2 (entropy w1)\<rparr>))"
  have tn: "time_Now (w1\<lparr>entropy := drop 2 (entropy w1)\<rparr>) = (t, w2)"
    by (simp add: t_def w2_def)
  define w3 where "w3 = w2\<lparr>faults := [Some (Fault 28 (Some 1))]\<rparr>"
  have g: "getStore demo_codec demo_store w2 = (Return [], w3)"
    by (simp add: getStore_def createStoreIfNotExists_def os_Stat_def ioutil_ReadFile_def
        next_fault_def w2_def w3_def w1_def torn_world_def time_Now_def)
  have wr: "\<And>e. ioutil_WriteFile (storeLocation demo_store) (enc_list [e]) w3 =
          (Some (PathError 28),
           w3\<lparr>faults := [], files := (files w3)(storeLocation demo_store \<mapsto> ''#'')\<rparr>)"
    by (simp add: ioutil_WriteFile_def next_fault_def w3_def)
  have m: "\<And>ys. json_Marshal demo_codec ys = Inr (enc_list ys)"
    by (simp add: demo_codec_def demo_Marshal_def)
  show ?thesis
    by (simp add: FileStore_Put_def c1 enc tn g wr m Let_def del: enc_list.simps)
qed

text \<open>
  Claim C6. Reading operations and the creation of a missing file keep the
  representation of the store file (zero bytes, or the marshalled form of a non-empty
  sequence); \<open>Put\<close> and \<open>Delete\<close> keep it as long as no write fails after part of a
  document was written. When \<open>Delete\<close> leaves no record, it writes zero bytes, not
  \<^verbatim>\<open>null\<close> and not \<^verbatim>\<open>[]\<close>. A store file created because it was missing has zero
  bytes, and \<open>List\<close> then returns the empty sequence.
\<close>

theorem store_file_invariant:
  "(store_file_ok j (storeLocation d) w \<longrightarrow>
        store_file_ok j (storeLocation d) (snd (createStoreIfNotExists d w))
      \<and> store_file_ok j (storeLocation d) (snd (FileStore_Get c j d key w))
      \<and> store_file_ok j (storeLocation d) (snd (FileStore_List j d w))
      \<and> store_file_ok j (storeLocation d) (snd (FileStore_CheckExists j d key w))
      \<and> (untorn w \<longrightarrow>
            store_file_ok j (storeLocation d) (snd (FileStore_Put c j d key val w))
          \<and> store_file_ok j (storeLocation d) (snd (FileStore_Delete j d key w))))
   \<and> (faults w = [] \<and> fst (getStore j d w) = Return xs
         \<and> (\<forall>e\<in>set xs. Name (KeyInfo e) = key) \<longrightarrow>
        fst (FileStore_Delete j d key w) = Return ()
      \<and> files (snd (FileStore_Delete j d key w)) (storeLocation d) = Some []
      \<and> files (snd (FileStore_Delete j d key w)) (storeLocation d) \<noteq> Some ''null''
      \<and> files (snd (FileStore_Delete j d key w)) (storeLocation d) \<noteq> Some ''[]'')
   \<and> (files w (storeLocation d) = None \<and> faults w = [] \<longrightarrow>
        fst (createStoreIfNotExists d w) = None
      \<and> files (snd (createStoreIfNotExists d w)) (storeLocation d) = Some []
      \<and> fst (FileStore_List j d w) = Return []
      \<and> files (snd (FileStore_List j d w)) (storeLocation d) = Some [])"
  using createStore_ok[of j d w] Get_ok[of j d w c key] List_ok[of j d w]
    CheckExists_ok[of j d w key] Put_ok[of j d w c key val] Delete_ok[of j d w key]
    Delete_all_gone[of w j d xs key] Delete_all_gone_text[of w j d xs key] fresh_store[of w d j]
  by blast

theorem store_file_invariant_witness:
  "store_file_ok demo_codec (storeLocation demo_store) demo_world \<and> untorn demo_world
   \<and> store_file_ok demo_codec (storeLocation demo_store)
        (snd (FileStore_Put demo_crypto demo_codec demo_store ''db-pass'' ''s3cr3t'' demo_world))
   \<and> files demo_world (storeLocation demo_store) = None \<and> faults demo_world = []
   \<and> files (snd (createStoreIfNotExists demo_store demo_world)) (storeLocation demo_store)
        = Some []
   \<and> fst (FileStore_List demo_codec demo_store demo_world) = Return []
   \<and> faults (stored_world [demo_entry ''db-pass'' ''s3cr3t'']) = []
   \<and> fst (getStore demo_codec demo_store (stored_world [demo_entry ''db-pass'' ''s3cr3t'']))
        = Return [demo_entry ''db-pass'' ''s3cr3t'']
   \<and> fst (FileStore_Delete demo_codec demo_store ''db-pass''
             (stored_world [demo_entry ''db-pass'' ''s3cr3t''])) = Return ()
   \<and> files (snd (FileStore_Delete demo_codec demo_store ''db-pass''
                    (stored_world [demo_entry ''db-pass'' ''s3cr3t''])))
         (storeLocation demo_store) = Some []"
proof -
  have ok: "store_file_ok demo_codec (storeLocation demo_store) demo_world"
    by (simp add: store_file_ok_def demo_world_def)
  have un: "untorn demo_world"
    by (simp add: untorn_def demo_world_def)
  have ab: "files demo_world (storeLocation demo_store) = None"
    and nf: "faults demo_world = []"
    by (simp_all add: demo_world_def)
  have nf2: "faults (stored_world [demo_entry ''db-pass'' ''s3cr3t'']) = []"
    by (simp add: stored_world_def demo_world_def)
  have ld: "fst (getStore demo_codec demo_store (stored_world [demo_entry ''db-pass'' ''s3cr3t'']))
              = Return [demo_entry ''db-pass'' ''s3cr3t'']"
    using stored_world_load[of "''hunter2''" "demo_entry ''db-pass'' ''s3cr3t''" "[]"]
    by (simp add: demo_store_def)
  have nm: "\<forall>e\<in>set [demo_entry ''db-pass'' ''s3cr3t'']. Name (KeyInfo e) = ''db-pass''"
    by (simp add: demo_entry_def)
  from store_file_invariant[of demo_codec demo_store demo_world demo_crypto "''db-pass''"
         "''s3cr3t''" "[]"] ok un ab nf
  have a: "store_file_ok demo_codec (storeLocation demo_store)
             (snd (FileStore_Put demo_crypto demo_codec demo_store ''db-pass'' ''s3cr3t'' demo_world))
         \<and> files (snd (createStoreIfNotExists demo_store demo_world)) (storeLocation demo_store)
             = Some []
         \<and> fst (FileStore_List demo_codec demo_store demo_world) = Return []"
    by blast
  from store_file_invariant[of demo_codec demo_store
         "stored_world [demo_entry ''db-pass'' ''s3cr3t'']" demo_crypto "''db-pass''"
         "''s3cr3t''" "[demo_entry ''db-pass'' ''s3cr3t'']"] nf2 ld nm
  have b: "fst (FileStore_Delete demo_codec demo_store ''db-pass''
                  (stored_world [demo_entry ''db-pass'' ''s3cr3t''])) = Return ()
         \<and> files (snd (FileStore_Delete demo_codec demo_store ''db-pass''
                          (stored_world [demo_entry ''db-pass'' ''s3cr3t''])))
               (storeLocation demo_store) = Some []"
    by blast
  show ?thesis using ok un ab nf nf2 ld a b by blast
qed

text \<open>
  A write that fails after its first byte: the store file was empty, \<open>Put\<close> returns the
  error of the write, and the file holds the first byte of the document, which is
  neither zero bytes nor a marshalled sequence.
\<close>

theorem store_file_invariant_counterexample:
  "store_file_ok demo_codec (storeLocation demo_store) torn_world
   \<and> fst (FileStore_Put demo_crypto demo_codec demo_store ''db-pass'' ''s3cr3t'' torn_world)
       = Fail (PathError 28)
   \<and> files (snd (FileStore_Put demo_crypto demo_codec demo_store ''db-pass'' ''s3cr3t''
                    torn_world)) (storeLocation demo_store) = Some ''#''
   \<and> \<not> store_file_ok demo_codec (storeLocation demo_store)
         (snd (FileStore_Put demo_crypto demo_codec demo_store ''db-pass'' ''s3cr3t''
                 torn_world))"
proof -
  from Put_torn obtain w' where
    p: "FileStore_Put demo_crypto demo_codec demo_store ''db-pass'' ''s3cr3t'' torn_world
          = (Fail (PathError 28), w')"
    and f: "files w' (storeLocation demo_store) = Some ''#''"
    by blast
  have ok: "store_file_ok demo_codec (storeLocation demo_store) torn_world"
    by (simp add: store_file_ok_def torn_world_def)
  have "\<not> (\<exists>ys. ys \<noteq> [] \<and> json_Marshal demo_codec ys = Inr ''#'')"
  proof
    assume "\<exists>ys. ys \<noteq> [] \<and> json_Marshal demo_codec ys = Inr ''#''"
    then obtain ys where "ys \<noteq> []" "enc_list ys = ''#''"
      by (auto simp: demo_codec_def demo_Marshal_def)
    then show False using length_enc_list_ne[of ys] by simp
  qed
  then have "\<not> store_file_ok demo_codec (storeLocation demo_store) w'"
    using f by (simp add: store_file_ok_def)
  then show ?thesis using ok p f by simp
qed

section \<open>The overwrite flag of the remote backends\<close>

lemma VaultStore_Put_refuses_existing:
  "VaultStore_CheckExists v p key srv = Inr True \<Longrightarrow>
     VaultStore_Put v p key val False srv =
       (Some (ErrorString (''secret with key '' @ [CHR 0x27] @ key @ [CHR 0x27]
                             @ '' already exists'')), srv)"
  by (simp add: VaultStore_Put_def)

lemma VaultStore_Put_writes:
  "overwrite \<or> VaultStore_CheckExists v p key srv = Inr False \<Longrightarrow>
     VaultStore_Put v p key val overwrite srv =
       KvV2Write v (path_Join v (ProjectID p) key) val (getMountPath p) srv"
  by (auto simp: VaultStore_Put_def)

lemma AWSSecretManager_Put_any_flag:
  "AWSSecretManager_Put PutSecretValue p key val overwrite srv = PutSecretValue key val srv"
  by (simp add: AWSSecretManager_Put_def split: prod.splits option.splits)

text \<open>
  Claim C4. A remote \<open>Put\<close> without \<open>overwrite\<close> is to fail when the key exists.
  \<open>VaultStore.Put\<close> does; \<open>AWSSecretManager.Put\<close> never reads the flag: on a secret
  that exists it stores the new value and returns no error.
\<close>

theorem AWSSecretManager_Put_overwrites_existing:
  "AWSSecretManager_Put mem_PutSecretValue demo_profile ''db-pass'' ''new'' False
       [''db-pass'' \<mapsto> ''old'']
     = (None, [''db-pass'' \<mapsto> ''new''])
   \<and> VaultStore_Put mem_vault demo_profile ''db-pass'' ''new'' False
       [''demo/db-pass'' \<mapsto> ''old'']
     = (Some (ErrorString (''secret with key '' @ [CHR 0x27] @ ''db-pass'' @ [CHR 0x27]
                             @ '' already exists'')),
        [''demo/db-pass'' \<mapsto> ''old''])"
  by (simp add: AWSSecretManager_Put_def mem_PutSecretValue_def VaultStore_Put_def
      VaultStore_CheckExists_def mem_vault_def demo_profile_def getMountPath_def)

section \<open>Restore\<close>

lemma restore_loop_record:
  "restore_loop record_Put items logged calls =
     (logged, calls @ map (\<lambda>(k, v). (k @ ''_restore'', v, False)) items)"
  by (induction items arbitrary: logged calls) (auto simp: record_Put_def)

text \<open>
  Claim C3. A backup with a wrapped key is to be unwrapped with the private key and its
  payload opened. \<open>restore\<close> does neither: whatever the file holds, it decodes the
  bytes read as a map from name to bytes and puts every value as decoded, under the
  name with \<^verbatim>\<open>_restore\<close> appended and without \<open>overwrite\<close>; a file that does not decode
  so ends the command.
\<close>

theorem restore_puts_decoded_bytes:
  "restore json_Unmarshal_items record_Put (Inr buf) [] =
     (case json_Unmarshal_items buf of
        Inl err \<Rightarrow> (Fatal ''decode'' err, [])
      | Inr items \<Rightarrow>
          (Restored (length items) [],
           map (\<lambda>(k, v). (k @ ''_restore'', v, False)) items))"
  by (simp add: restore_def restore_loop_record split: sum.splits)

end
